theory Spec2Isabelle
  imports Main "HOL-Library.Char_ord" "HOL-Library.List_Lexorder" "HOL-Library.AList"
    "HOL-Library.Multiset"
begin

section \<open>Exceptions\<close>

text \<open>
  Every exception a modelled function can raise is a value of \<open>error\<close>; a function that
  can raise returns \<open>error + 'a\<close>, with \<open>Inl\<close> for the exception.
\<close>

datatype error =
    NoCapableSource string string
  | MissingArgument
  | ValueError
  | KeyError
  | IndexError
  | TypeError
  | RegexError
  | ParserError
  | ElasticSearchError

section \<open>The model hierarchy\<close>

text \<open>
  Modelled from the spec: the classes \<open>Test\<close>, \<open>Build\<close> and \<open>Job\<close> (package
  \<open>cibyl.models.ci.base\<close>) are not part of the sources at hand. Their fields are those the
  spec gives them and the module \<open>api.py\<close> sets when it builds them; a field that is not
  set is \<open>None\<close>. The builds of a job are keyed by their identifier and the tests of a
  build by their name, as the unit tests of the source read them. A Python dictionary keeps
  the insertion order of its keys, so it is an association list. The type \<open>'f\<close> stands for
  Python's \<open>float\<close> (the duration of a test).
\<close>

record 'f test =
  test_name :: string
  test_result :: "string option"
  test_duration :: "'f option"
  class_name :: "string option"

record 'f build =
  build_id :: string
  status :: "string option"
  duration :: "int option"
  tests :: "(string \<times> 'f test) list"

record 'f job =
  name :: string
  url :: "string option"
  builds :: "(string \<times> 'f build) list"

text \<open>
  What a source method returns to \<open>run_query\<close>: a mapping, of which \<open>populate\<close> reads the
  items, each a key and a value; \<open>populate\<close> hands the value to the method of the system
  named \<open>add_\<close> and the key. The type \<open>'m\<close> of the values is left open. A method of the
  Elasticsearch source returns the jobs it has found, each under its name, so its values
  are jobs. What a source method is given: the dictionary \<open>{arg_name: arg.value}\<close>.
\<close>

type_synonym 'm model_instances = "(string \<times> 'm) list"

type_synonym 'v kwargs = "(string \<times> 'v) list"

type_synonym ('v, 'm) source_method = "'v kwargs \<Rightarrow> error + 'm model_instances"

text \<open>
  Modelled from the spec: the classes \<open>Source\<close>, \<open>System\<close> and \<open>Environment\<close> are not part of
  the sources at hand. A source has a unique name, a numeric priority and an enabled flag,
  and advertises the handlers it implements: \<open>methods src f\<close> is \<open>getattr(src, f)\<close>, and
  \<open>None\<close> where \<open>hasattr(src, f)\<close> is false. A system has a name, its sources and its jobs;
  an environment has a name and its systems.
\<close>

record ('v, 'm) source =
  src_name :: string
  priority :: int
  enabled :: bool
  methods :: "string \<Rightarrow> ('v, 'm) source_method option"

record ('v, 'f, 'm) system =
  sys_name :: string
  sources :: "('v, 'm) source list"
  jobs :: "(string \<times> 'f job) list"

record ('v, 'f, 'm) environment =
  env_name :: string
  systems :: "('v, 'f, 'm) system list"

section \<open>The orchestrator\<close>

text \<open>An entry of \<open>parser.ci_args\<close>: \<open>level\<close>, \<open>func\<close> (the name of a source method) and \<open>value\<close>.\<close>

record 'v argument =
  level :: int
  func :: "string option"
  arg_value :: 'v

text \<open>\<open>not arg.func\<close>: \<open>None\<close> and the empty string are both false in Python.\<close>

definition no_func :: "'v argument \<Rightarrow> bool" where
  "no_func arg = (case func arg of None \<Rightarrow> True | Some f \<Rightarrow> f = [])"

text \<open>
  \<open>sorted(xs, key=k, reverse=True)\<close>: descending by key, and stable (elements with equal keys
  keep their order), which is the stable ascending sort by the negated key.
\<close>

definition sorted_reverse :: "('a \<Rightarrow> int) \<Rightarrow> 'a list \<Rightarrow> 'a list" where
  "sorted_reverse k xs = sort_key (\<lambda>x. - k x) xs"

text \<open>
  \<open>Orchestrator.populate\<close>. The class \<open>System\<close> is not part of the sources at hand: \<open>P\<close> is
  its table of methods, \<open>P m = Some f\<close> when \<open>hasattr(system, m)\<close>, and then \<open>f\<close> is
  \<open>getattr(system, m)\<close>.
\<close>

type_synonym ('v, 'f, 'm) population =
  "string \<Rightarrow> ('m \<Rightarrow> ('v, 'f, 'm) system \<Rightarrow> ('v, 'f, 'm) system) option"

fun populate ::
  "('v, 'f, 'm) population \<Rightarrow> ('v, 'f, 'm) system \<Rightarrow> 'm model_instances \<Rightarrow>
   ('v, 'f, 'm) system" where
  "populate P system [] = system"
| "populate P system ((attribute_key, v) # model_instances) =
     (case P (''add_'' @ attribute_key) of
        Some population_method \<Rightarrow> populate P (population_method v system) model_instances
      | None \<Rightarrow> populate P system model_instances)"

text \<open>
  One record per call of a source method, in the order of the calls: the level and the
  function of the argument that asked for it, the system it was asked for and the source
  that answered. The list of these records is not a variable of the program; it is kept
  by the model to state in which order the program calls its sources.
\<close>

record call =
  call_level :: int
  call_func :: string
  call_system :: string
  call_source :: string

text \<open>
  The state \<open>run_query\<close> works on: its local variable \<open>last_level\<close>, the environments
  (whose systems \<open>populate\<close> mutates) and the calls made so far.
\<close>

record ('v, 'f, 'm) query_state =
  last_level :: int
  environments :: "('v, 'f, 'm) environment list"
  calls :: "call list"

text \<open>
  \<open>Source.get_source_method\<close> is not part of the sources at hand: \<open>G\<close> stands for it. It
  is given the name of the system, its sources and the name of the method, and returns a
  bound method, that is the source it chose and the method of this source, or raises.
\<close>

type_synonym ('v, 'm) resolver =
  "string \<Rightarrow> ('v, 'm) source list \<Rightarrow> string \<Rightarrow>
   error + (('v, 'm) source \<times> ('v, 'm) source_method)"

text \<open>
  The body of \<open>for system in env.systems\<close>. An exception leaves the loop; the systems
  populated before it stay populated, so the result carries the systems as they are
  at that moment.
\<close>

fun query_systems ::
  "('v, 'm) resolver \<Rightarrow> ('v, 'f, 'm) population \<Rightarrow> int \<Rightarrow> string \<Rightarrow> 'v kwargs \<Rightarrow>
   ('v, 'f, 'm) system list \<Rightarrow> call list \<Rightarrow> ('v, 'f, 'm) system list \<times> call list \<times> error option" where
  "query_systems G P lv f kw [] log = ([], log, None)"
| "query_systems G P lv f kw (system # rest) log =
     (case G (sys_name system) (sources system) f of
        Inl e \<Rightarrow> (system # rest, log, Some e)
      | Inr (src, source_method) \<Rightarrow>
          (let log' = log @ [\<lparr>call_level = lv, call_func = f,
                              call_system = sys_name system, call_source = src_name src\<rparr>]
           in case source_method kw of
                Inl e \<Rightarrow> (system # rest, log', Some e)
              | Inr model_instances \<Rightarrow>
                  (case query_systems G P lv f kw rest log' of
                     (rest', log'', r) \<Rightarrow>
                       (populate P system model_instances # rest', log'', r))))"

text \<open>The body of \<open>for env in self.environments\<close>.\<close>

fun query_environments ::
  "('v, 'm) resolver \<Rightarrow> ('v, 'f, 'm) population \<Rightarrow> int \<Rightarrow> string \<Rightarrow> 'v kwargs \<Rightarrow>
   ('v, 'f, 'm) environment list \<Rightarrow> call list \<Rightarrow>
   ('v, 'f, 'm) environment list \<times> call list \<times> error option" where
  "query_environments G P lv f kw [] log = ([], log, None)"
| "query_environments G P lv f kw (env # rest) log =
     (case query_systems G P lv f kw (systems env) log of
        (systems', log', Some e) \<Rightarrow> (env\<lparr>systems := systems'\<rparr> # rest, log', Some e)
      | (systems', log', None) \<Rightarrow>
          (case query_environments G P lv f kw rest log' of
             (rest', log'', r) \<Rightarrow> (env\<lparr>systems := systems'\<rparr> # rest', log'', r)))"

text \<open>
  One turn of the loop of \<open>run_query\<close> over the sorted arguments, for the argument \<open>arg\<close>:
  the new state, and the exception if one was raised. \<open>continue\<close> ends the turn before
  \<open>last_level = arg.level\<close>.
\<close>

definition run_query_step ::
  "('v, 'm) resolver \<Rightarrow> ('v, 'f, 'm) population \<Rightarrow> int \<Rightarrow> 'v kwargs \<Rightarrow> 'v argument \<Rightarrow>
   ('v, 'f, 'm) query_state \<Rightarrow> ('v, 'f, 'm) query_state \<times> error option" where
  "run_query_step G P start_level kw arg st =
     (if level arg \<ge> start_level \<and> level arg \<ge> last_level st then
        (case func arg of
           None \<Rightarrow> (st, None)
         | Some f \<Rightarrow>
             (if f = [] then (st, None)
              else
                (case query_environments G P (level arg) f kw (environments st) (calls st) of
                   (envs', log', Some e) \<Rightarrow>
                     (st\<lparr>environments := envs', calls := log'\<rparr>, Some e)
                 | (envs', log', None) \<Rightarrow>
                     (st\<lparr>environments := envs', calls := log', last_level := level arg\<rparr>,
                      None))))
      else (st\<lparr>last_level := level arg\<rparr>, None))"

fun run_query_loop ::
  "('v, 'm) resolver \<Rightarrow> ('v, 'f, 'm) population \<Rightarrow> int \<Rightarrow> 'v kwargs \<Rightarrow> 'v argument list \<Rightarrow>
   ('v, 'f, 'm) query_state \<Rightarrow> ('v, 'f, 'm) query_state \<times> error option" where
  "run_query_loop G P start_level kw [] st = (st, None)"
| "run_query_loop G P start_level kw (arg # args) st =
     (case run_query_step G P start_level kw arg st of
        (st', Some e) \<Rightarrow> (st', Some e)
      | (st', None) \<Rightarrow> run_query_loop G P start_level kw args st')"

text \<open>The order in which \<open>run_query\<close> goes through \<open>parser.ci_args\<close>.\<close>

definition processing_order :: "(string \<times> 'v argument) list \<Rightarrow> 'v argument list" where
  "processing_order ci_args = sorted_reverse level (map snd ci_args)"

text \<open>
  \<open>Orchestrator.run_query\<close>, on the dictionary \<open>parser.ci_args\<close> and the environments.
  Every source method is given \<open>{arg_name: arg.value}\<close> of all the arguments.
  \<open>start_level\<close> is 1 when the caller does not give it.
\<close>

definition run_query ::
  "('v, 'm) resolver \<Rightarrow> ('v, 'f, 'm) population \<Rightarrow> int \<Rightarrow> (string \<times> 'v argument) list \<Rightarrow>
   ('v, 'f, 'm) environment list \<Rightarrow> ('v, 'f, 'm) query_state \<times> error option" where
  "run_query G P start_level ci_args envs =
     run_query_loop G P start_level (map (\<lambda>(arg_name, arg). (arg_name, arg_value arg)) ci_args)
       (processing_order ci_args)
       \<lparr>last_level = - 1, environments = envs, calls = []\<rparr>"

section \<open>The source resolver\<close>

text \<open>
  \<open>Source.get_source_method\<close> (module \<open>cibyl.sources.source\<close>) is called by \<open>run_query\<close> and
  is not part of the sources at hand. The spec has it as \<open>resolve\<close>: among the system's
  enabled sources, select those advertising the handler; if several exist, pick the one
  with the highest numeric priority; ties broken by source name; fail with
  \<open>NoCapableSource\<close> when no enabled source implements the handler.
\<close>

text \<open>
  Modelled from the spec: the sources \<open>Source.get_source_method\<close> can choose from, those that
  are enabled and advertise the handler, each with its method, in the order of the system.
\<close>

definition candidates ::
  "string \<Rightarrow> ('v, 'm) source list \<Rightarrow> (('v, 'm) source \<times> ('v, 'm) source_method) list" where
  "candidates f srcs =
     concat (map (\<lambda>src. if enabled src
                            then (case methods src f of None \<Rightarrow> [] | Some m \<Rightarrow> [(src, m)])
                            else []) srcs)"

text \<open>
  Modelled from the spec: the order in which \<open>Source.get_source_method\<close> prefers the sources,
  the higher priority first and, at the same priority, the name that comes first.
\<close>

definition preferred :: "('v, 'm) source \<Rightarrow> ('v, 'm) source \<Rightarrow> bool" where
  "preferred s t =
     (priority t < priority s \<or> (priority s = priority t \<and> src_name s < src_name t))"

text \<open>
  Modelled from the spec: \<open>Source.get_source_method\<close>, the method of the preferred one of the
  sources it can choose from, or \<open>NoCapableSource\<close> when there is none.
\<close>

definition get_source_method :: "('v, 'm) resolver" where
  "get_source_method system_name srcs f =
     (case candidates f srcs of
        [] \<Rightarrow> Inl (NoCapableSource system_name f)
      | c # rest \<Rightarrow>
          Inr (fold (\<lambda>t best. if preferred (fst t) (fst best) then t else best) rest c))"

text \<open>
  \<open>query\<close> of \<open>cibyl/cli.py\<close> resolves nothing: for every system it calls \<open>populate\<close> of
  every source, from the highest priority down. \<open>query_sources\<close> is the list of the sources
  it calls for one system, in the order of the calls.
\<close>

definition query_sources :: "('v, 'f, 'm) system \<Rightarrow> ('v, 'm) source list" where
  "query_sources system = sorted_reverse priority (sources system)"

section \<open>Merging into the model\<close>

text \<open>
  The \<open>add_\<close> methods of \<open>System\<close>, \<open>Job\<close> and \<open>Build\<close> (package \<open>cibyl.models\<close>) are not part
  of the sources at hand. The spec: each add operation is merge-or-insert; re-adding an
  entity with the same key updates only the fields present in the new value, preserving
  previously set fields absent from the new value; builds and tests of the same key are
  combined (union), not overwritten.
\<close>

text \<open>
  Modelled from the spec: the merge of one field of an entity of \<open>cibyl.models\<close>, the new
  value where it is present and the old one where it is absent.
\<close>

definition merge_field :: "'a option \<Rightarrow> 'a option \<Rightarrow> 'a option" where
  "merge_field old new = (case new of Some v \<Rightarrow> Some v | None \<Rightarrow> old)"

text \<open>
  Modelled from the spec: merge-or-insert into a dictionary of \<open>cibyl.models\<close>. A new key
  goes to the end, a key that is there keeps its place and gets the merged value.
\<close>

definition upsert :: "('a \<Rightarrow> 'a \<Rightarrow> 'a) \<Rightarrow> string \<Rightarrow> 'a \<Rightarrow> (string \<times> 'a) list \<Rightarrow> (string \<times> 'a) list" where
  "upsert m k v d = AList.update k (case map_of d k of None \<Rightarrow> v | Some old \<Rightarrow> m old v) d"

text \<open>
  Modelled from the spec: the merge of two tests of the same key (\<open>Test\<close> of \<open>cibyl.models\<close>).
\<close>

definition merge_test :: "'f test \<Rightarrow> 'f test \<Rightarrow> 'f test" where
  "merge_test old new =
     old\<lparr>test_result := merge_field (test_result old) (test_result new),
         test_duration := merge_field (test_duration old) (test_duration new),
         class_name := merge_field (class_name old) (class_name new)\<rparr>"

text \<open>
  Modelled from the spec: \<open>Build.add_test\<close> of \<open>cibyl.models\<close>, merge-or-insert of a test.
\<close>

definition add_test :: "'f test \<Rightarrow> 'f build \<Rightarrow> 'f build" where
  "add_test t b = b\<lparr>tests := upsert merge_test (test_name t) t (tests b)\<rparr>"

text \<open>
  Modelled from the spec: the merge of two builds of the same key (\<open>Build\<close> of
  \<open>cibyl.models\<close>); their tests are combined.
\<close>

definition merge_build :: "'f build \<Rightarrow> 'f build \<Rightarrow> 'f build" where
  "merge_build old new =
     fold add_test (map snd (tests new))
       (old\<lparr>status := merge_field (status old) (status new),
            duration := merge_field (duration old) (duration new)\<rparr>)"

text \<open>
  Modelled from the spec: \<open>Job.add_build\<close> of \<open>cibyl.models\<close>, merge-or-insert of a build.
\<close>

definition add_build :: "'f build \<Rightarrow> 'f job \<Rightarrow> 'f job" where
  "add_build b j = j\<lparr>builds := upsert merge_build (build_id b) b (builds j)\<rparr>"

text \<open>
  Modelled from the spec: the merge of two jobs of the same key (\<open>Job\<close> of \<open>cibyl.models\<close>);
  their builds are combined.
\<close>

definition merge_job :: "'f job \<Rightarrow> 'f job \<Rightarrow> 'f job" where
  "merge_job old new =
     fold add_build (map snd (builds new)) (old\<lparr>url := merge_field (url old) (url new)\<rparr>)"

text \<open>
  Modelled from the spec: \<open>addJob\<close> of the system (\<open>System\<close> of \<open>cibyl.models\<close>),
  merge-or-insert of a job.
\<close>

definition add_job :: "'f job \<Rightarrow> ('v, 'f, 'm) system \<Rightarrow> ('v, 'f, 'm) system" where
  "add_job j system = system\<lparr>jobs := upsert merge_job (name j) j (jobs system)\<rparr>"

text \<open>
  Modelled from the spec: the method of \<open>System\<close> (\<open>cibyl.models\<close>) that \<open>populate\<close> calls for
  the key \<open>jobs\<close>; it merges the jobs a source has returned, one after the other.
\<close>

definition add_jobs :: "(string \<times> 'f job) list \<Rightarrow> ('v, 'f, 'm) system \<Rightarrow> ('v, 'f, 'm) system" where
  "add_jobs js system = fold add_job (map snd js) system"

text \<open>
  Modelled from the spec: the methods of \<open>System\<close> (\<open>cibyl.models\<close>) that \<open>populate\<close> can find
  with \<open>hasattr\<close>.
\<close>

definition system_methods :: "('v, 'f, (string \<times> 'f job) list) population" where
  "system_methods m = (if m = ''add_jobs'' then Some add_jobs else None)"

text \<open>
  A dictionary of the model is well formed when its keys are distinct and each entity is
  stored under its own key, as the dictionaries of the program are.
\<close>

definition wf_build :: "'f build \<Rightarrow> bool" where
  "wf_build b =
     (distinct (map fst (tests b)) \<and> list_all (\<lambda>(k, t). k = test_name t) (tests b))"

definition wf_job :: "'f job \<Rightarrow> bool" where
  "wf_job j =
     (distinct (map fst (builds j)) \<and>
      list_all (\<lambda>(k, b). k = build_id b \<and> wf_build b) (builds j))"

definition wf_jobs :: "(string \<times> 'f job) list \<Rightarrow> bool" where
  "wf_jobs js =
     (distinct (map fst js) \<and> list_all (\<lambda>(k, j). k = name j \<and> wf_job j) js)"

text \<open>
  \<open>populated_le s s'\<close>: what is populated in the system \<open>s\<close> is populated in \<open>s'\<close>. Every job
  of \<open>s\<close> is a job of \<open>s'\<close>, every build of the job is a build of it in \<open>s'\<close>, every test of
  the build is a test of it in \<open>s'\<close>, and a field that is set in \<open>s\<close> is set in \<open>s'\<close>.
\<close>

definition set_le :: "'a option \<Rightarrow> 'a option \<Rightarrow> bool" where
  "set_le x y = (x \<noteq> None \<longrightarrow> y \<noteq> None)"

definition dict_le :: "('a \<Rightarrow> 'a \<Rightarrow> bool) \<Rightarrow> (string \<times> 'a) list \<Rightarrow> (string \<times> 'a) list \<Rightarrow> bool" where
  "dict_le le d d' =
     list_all
       (\<lambda>k. case map_of d k of
              None \<Rightarrow> True
            | Some v \<Rightarrow> (case map_of d' k of None \<Rightarrow> False | Some v' \<Rightarrow> le v v'))
       (map fst d)"

definition test_le :: "'f test \<Rightarrow> 'f test \<Rightarrow> bool" where
  "test_le t t' =
     (set_le (test_result t) (test_result t') \<and> set_le (test_duration t) (test_duration t') \<and>
      set_le (class_name t) (class_name t'))"

definition build_le :: "'f build \<Rightarrow> 'f build \<Rightarrow> bool" where
  "build_le b b' =
     (set_le (status b) (status b') \<and> set_le (duration b) (duration b') \<and>
      dict_le test_le (tests b) (tests b'))"

definition job_le :: "'f job \<Rightarrow> 'f job \<Rightarrow> bool" where
  "job_le j j' = (set_le (url j) (url j') \<and> dict_le build_le (builds j) (builds j'))"

definition populated_le :: "('v, 'f, 'm) system \<Rightarrow> ('v, 'f, 'm) system \<Rightarrow> bool" where
  "populated_le s s' = dict_le job_le (jobs s) (jobs s')"

section \<open>Strings and numbers of Python\<close>

text \<open>
  A string is the list of its characters; the model covers the characters with the code
  points 0 to 255, those of Latin-1.

  \<open>str.lower\<close>: the capital letters of these characters are \<open>A\<close> to \<open>Z\<close> and the code points
  192 to 222 but 215 (the multiplication sign); the small letter of each has the code point
  32 above. No other character changes.
\<close>

definition py_lower_char :: "char \<Rightarrow> char" where
  "py_lower_char c =
     (let n = (of_char c :: nat)
      in if (65 \<le> n \<and> n \<le> 90) \<or> (192 \<le> n \<and> n \<le> 222 \<and> n \<noteq> 215) then char_of (n + 32)
         else c)"

definition py_lower :: "string \<Rightarrow> string" where
  "py_lower s = map py_lower_char s"

text \<open>
  \<open>str.upper\<close> leaves these characters: the capital of the sharp s (223) is \<open>SS\<close>, the
  capital of the micro sign (181) has the code point 924 and that of the y with diaeresis
  (255) the code point 376. So the result is the list of its code points. The small
  letters are \<open>a\<close> to \<open>z\<close> and the code points 224 to 254 but 247 (the division sign), with
  their capitals 32 below. No other character changes.
\<close>

definition code_points :: "string \<Rightarrow> nat list" where
  "code_points s = map of_char s"

definition py_upper_char :: "char \<Rightarrow> nat list" where
  "py_upper_char c =
     (let n = (of_char c :: nat)
      in if 97 \<le> n \<and> n \<le> 122 then [n - 32]
         else if n = 181 then [924]
         else if n = 223 then [83, 83]
         else if 224 \<le> n \<and> n \<le> 254 \<and> n \<noteq> 247 then [n - 32]
         else if n = 255 then [376]
         else [n])"

definition py_upper :: "string \<Rightarrow> nat list" where
  "py_upper s = concat (map py_upper_char s)"

text \<open>\<open>sep.join(xs)\<close>.\<close>

fun join :: "string \<Rightarrow> string list \<Rightarrow> string" where
  "join sep [] = []"
| "join sep [x] = x"
| "join sep (x # y # ys) = x @ sep @ join sep (y # ys)"

text \<open>\<open>str(n)\<close> for an integer \<open>n\<close>.\<close>

fun str_nat :: "nat \<Rightarrow> string" where
  "str_nat n =
     (if n < 10 then [char_of (48 + n)] else str_nat (n div 10) @ [char_of (48 + n mod 10)])"

definition str_int :: "int \<Rightarrow> string" where
  "str_int i = (if i < 0 then CHR ''-'' # str_nat (nat (- i)) else str_nat (nat i))"

text \<open>
  \<open>int(s)\<close> for a string \<open>s\<close>, \<open>None\<close> where Python raises \<open>ValueError\<close>. White space
  around the number is dropped: the characters 9 to 13 and the space and, of the
  characters beyond ASCII, the next line (133) and the no-break space (160), which \<open>int\<close>
  takes for spaces. The separators 28 to 31 are white space for \<open>str.strip\<close> but not for
  \<open>int\<close>, which raises on them. A sign may come first, and single underscores may stand
  between digits. A number of more than 4300 digits is refused (the limit Python 3.11 sets
  unless it is told otherwise).
\<close>

definition int_space :: "char \<Rightarrow> bool" where
  "int_space c =
     (let n = (of_char c :: nat)
      in (9 \<le> n \<and> n \<le> 13) \<or> n = 32 \<or> n = 133 \<or> n = 160)"

definition int_strip :: "string \<Rightarrow> string" where
  "int_strip s = rev (dropWhile int_space (rev (dropWhile int_space s)))"

definition digit_val :: "char \<Rightarrow> nat option" where
  "digit_val c =
     (if CHR ''0'' \<le> c \<and> c \<le> CHR ''9'' then Some (of_char c - (48::nat)) else None)"

fun digits_value :: "nat \<Rightarrow> string \<Rightarrow> nat option" where
  "digits_value acc [] = Some acc"
| "digits_value acc (c # cs) =
     (if c = CHR ''_'' then
        (case cs of
           [] \<Rightarrow> None
         | d # ds \<Rightarrow>
             (case digit_val d of
                None \<Rightarrow> None
              | Some v \<Rightarrow> digits_value (acc * 10 + v) ds))
      else
        (case digit_val c of
           None \<Rightarrow> None
         | Some v \<Rightarrow> digits_value (acc * 10 + v) cs))"

definition int_max_str_digits :: nat where
  "int_max_str_digits = 4300"

definition unsigned_value :: "string \<Rightarrow> nat option" where
  "unsigned_value s =
     (if int_max_str_digits < length (filter (\<lambda>c. c \<noteq> CHR ''_'') s) then None
      else
        (case s of
           [] \<Rightarrow> None
         | c # cs \<Rightarrow> (case digit_val c of None \<Rightarrow> None | Some v \<Rightarrow> digits_value v cs)))"

definition py_int :: "string \<Rightarrow> int option" where
  "py_int s =
     (case int_strip s of
        [] \<Rightarrow> None
      | c # cs \<Rightarrow>
          (if c = CHR ''-'' then map_option (\<lambda>n. - int n) (unsigned_value cs)
           else if c = CHR ''+'' then map_option int (unsigned_value cs)
           else map_option int (unsigned_value (c # cs))))"

section \<open>The Elasticsearch source\<close>

subsection \<open>Records of the index and arguments of the user\<close>

text \<open>A value that is a number or a string: Jenkins sends \<open>build_num\<close> as a number.\<close>

datatype num_or_str = Num int | Str string

fun py_str :: "num_or_str \<Rightarrow> string" where
  "py_str (Num i) = str_int i"
| "py_str (Str s) = s"

text \<open>
  \<open>ElkJob\<close>, the \<open>_source\<close> of a hit: a document with the fields the queries ask for.
  \<open>job_name\<close>, \<open>job_url\<close> and \<open>build_num\<close> are read with \<open>[]\<close>, \<open>build_result\<close> and
  \<open>build_duration\<close> with \<open>get\<close>, so these two may be missing. \<open>test_results\<close> holds the
  values of the keys that start with \<open>test_results_\<close>, in the order of the keys.
\<close>

record elk_job =
  job_name :: string
  job_url :: string

record elk_build = elk_job +
  build_num :: num_or_str
  build_result :: "string option"
  build_duration :: "int option"
  test_results :: "string list"

text \<open>A test case of a parsed test suite (\<open>XMLTempestTestSuite\<close>).\<close>

record 'f testcase =
  tc_name :: string
  tc_classname :: "string option"
  tc_time :: "'f option"
  tc_skipped :: bool
  tc_failure :: bool

text \<open>A ranged argument: the operator and the operand the user wrote.\<close>

record ranged =
  operator :: string
  operand :: string

text \<open>
  The keyword arguments of a source method. A field is \<open>None\<close> when the key is not in
  \<open>kwargs\<close>; otherwise it holds the \<open>value\<close> of the argument, a list. \<open>jobs_scope\<close> is a
  plain string.
\<close>

record api_kwargs =
  kw_jobs :: "string list option"
  kw_jobs_scope :: "string option"
  kw_spec :: "string list option"
  kw_builds :: "string list option"
  kw_build_status :: "string list option"
  kw_last_build :: "string list option"
  kw_tests :: "string list option"
  kw_test_result :: "string list option"
  kw_test_duration :: "ranged list option"

text \<open>
  What the module takes from outside the repository: the regular expressions of \<open>re\<close>
  (\<open>re_compile\<close> is \<open>None\<close> where \<open>re.compile\<close> raises), the XML parser (\<open>None\<close> where
  it raises), and Python's \<open>float\<close> with the truth value of a float, the product with 1000
  and the conversion from a string (\<open>None\<close> where it raises). \<open>range_operators\<close> is the
  table \<open>RANGE_OPERATORS\<close> of \<open>cibyl.cli.ranged_argument\<close>, which is not part of the sources
  at hand; an operator compares the duration of a test, which may be missing, with a
  float (\<open>None\<close> where the comparison raises).
\<close>

record ('p, 'f) lib =
  re_compile :: "string \<Rightarrow> 'p option"
  re_search :: "'p \<Rightarrow> string \<Rightarrow> bool"
  xml_from_string :: "string \<Rightarrow> 'f testcase list option"
  float_of :: "string \<Rightarrow> 'f option"
  float_true :: "'f \<Rightarrow> bool"
  float_times_1000 :: "'f \<Rightarrow> 'f"
  range_operators :: "string \<Rightarrow> ('f option \<Rightarrow> 'f \<Rightarrow> bool option) option"

subsection \<open>Filters\<close>

text \<open>
  \<open>apply_filters\<close>, \<open>satisfy_regex_match\<close>, \<open>satisfy_exact_match\<close>,
  \<open>satisfy_case_insensitive_match\<close> and \<open>matches_regex\<close> (module \<open>cibyl.utils.filtering\<close>)
  are not part of the sources at hand.
\<close>

text \<open>
  Modelled from the spec: \<open>apply_filters\<close> of \<open>cibyl.utils.filtering\<close>. Each record passes
  through the chain of the stages in insertion order and survives only if every stage
  returns true; the empty chain admits all records.
\<close>

definition apply_filters :: "'a list \<Rightarrow> ('a \<Rightarrow> bool) list \<Rightarrow> 'a list" where
  "apply_filters iterable filters = fold (\<lambda>check result. filter check result) filters iterable"

text \<open>
  Modelled from the spec: \<open>matches_regex\<close> of \<open>cibyl.utils.filtering\<close>, the search of a
  compiled pattern in a string.
\<close>

definition matches_regex :: "('p, 'f) lib \<Rightarrow> 'p \<Rightarrow> string \<Rightarrow> bool" where
  "matches_regex L pattern s = re_search L pattern s"

text \<open>
  Modelled from the spec: \<open>satisfy_regex_match\<close> of \<open>cibyl.utils.filtering\<close>, given the
  value of the field to check: the pattern is found in it.
\<close>

definition satisfy_regex_match :: "('p, 'f) lib \<Rightarrow> 'p \<Rightarrow> string \<Rightarrow> bool" where
  "satisfy_regex_match L pattern field = re_search L pattern field"

text \<open>
  Modelled from the spec: \<open>satisfy_exact_match\<close> of \<open>cibyl.utils.filtering\<close>, given the
  value of the field to check: it is one of the values of the user.
\<close>

definition satisfy_exact_match :: "string list \<Rightarrow> string \<Rightarrow> bool" where
  "satisfy_exact_match user_input field = (field \<in> set user_input)"

text \<open>
  \<open>satisfy_case_insensitive_match\<close> of \<open>cibyl.utils.filtering\<close> is not part of the sources
  at hand, and the spec has no sentence on the case of letters. What the sources show of
  it is its name, its call in \<open>get_build_filters\<close>, which gives it the statuses of the user
  and the field \<open>build_result\<close>, and the unit test \<open>test_get_builds_by_status\<close>, which asks
  for \<open>fAiL\<close> and reads the build with the result \<open>FAIL\<close>. From these it is taken to hold
  when the value of the field is one of the values of the user once \<open>str.lower\<close> has been
  applied to both, and not to hold of a record without the field.
\<close>

definition satisfy_case_insensitive_match :: "string list \<Rightarrow> string option \<Rightarrow> bool" where
  "satisfy_case_insensitive_match user_input field =
     (case field of
        None \<Rightarrow> False
      | Some v \<Rightarrow> py_lower v \<in> set (map py_lower user_input))"

text \<open>
  Modelled from the spec: \<open>has_builds_job\<close> of \<open>cibyl.utils.models\<close>, which is not part of
  the sources at hand. The spec: a job left with zero builds after filtering is dropped.
\<close>

definition has_builds_job :: "'f job \<Rightarrow> bool" where
  "has_builds_job j = (builds j \<noteq> [])"

text \<open>
  Modelled from the spec: \<open>has_tests_job\<close> of \<open>cibyl.utils.models\<close>, which is not part of the
  sources at hand. By its use in \<open>get_tests\<close>, it holds of a job with a test in one of its
  builds.
\<close>

definition has_tests_job :: "'f job \<Rightarrow> bool" where
  "has_tests_job j = list_ex (\<lambda>(k, b). tests b \<noteq> []) (builds j)"

text \<open>\<open>get_build_filters\<close>: the tests a build has to pass, from the arguments of the user.\<close>

definition get_build_filters :: "api_kwargs \<Rightarrow> (elk_build \<Rightarrow> bool) list" where
  "get_build_filters kw =
     (case kw_builds kw of
        None \<Rightarrow> []
      | Some v \<Rightarrow> if v = [] then [] else [\<lambda>b. satisfy_exact_match v (py_str (build_num b))])
     @
     (case kw_build_status kw of
        None \<Rightarrow> []
      | Some v \<Rightarrow>
          if v = [] then [] else [\<lambda>b. satisfy_case_insensitive_match v (build_result b)])"

text \<open>
  The tests \<open>filter_jobs\<close> collects in \<open>checks_to_apply\<close>; \<open>re.compile\<close> can raise.
\<close>

definition job_checks ::
  "('p, 'f) lib \<Rightarrow> api_kwargs \<Rightarrow> error + (('a elk_job_scheme) \<Rightarrow> bool) list" where
  "job_checks L kw =
     (case (case kw_jobs kw of
              None \<Rightarrow> Inr []
            | Some v \<Rightarrow>
                if v = [] then Inr []
                else (case re_compile L (join ''|'' v) of
                        None \<Rightarrow> Inl RegexError
                      | Some pattern \<Rightarrow>
                          Inr [\<lambda>j. satisfy_regex_match L pattern (job_name j)])) of
        Inl e \<Rightarrow> Inl e
      | Inr c1 \<Rightarrow>
          (case (case kw_jobs_scope kw of
                   None \<Rightarrow> Inr []
                 | Some v \<Rightarrow>
                     if v = [] then Inr []
                     else (case re_compile L v of
                             None \<Rightarrow> Inl RegexError
                           | Some pattern \<Rightarrow>
                               Inr [\<lambda>j. satisfy_regex_match L pattern (job_name j)])) of
             Inl e \<Rightarrow> Inl e
           | Inr c2 \<Rightarrow>
               Inr (c1 @ c2 @
                    (case kw_spec kw of
                       None \<Rightarrow> []
                     | Some v \<Rightarrow>
                         if v = [] then []
                         else [\<lambda>j. satisfy_exact_match v (job_name j)]))))"

definition filter_jobs ::
  "('p, 'f) lib \<Rightarrow> api_kwargs \<Rightarrow> ('a elk_job_scheme) list \<Rightarrow> error + ('a elk_job_scheme) list" where
  "filter_jobs L kw jobs_found =
     (case job_checks L kw of
        Inl e \<Rightarrow> Inl e
      | Inr checks_to_apply \<Rightarrow> Inr (apply_filters jobs_found checks_to_apply))"

text \<open>\<open>filter_builds\<close>: the build number of every build is made a string first.\<close>

definition filter_builds :: "elk_build list \<Rightarrow> (elk_build \<Rightarrow> bool) list \<Rightarrow> elk_build list" where
  "filter_builds builds_found checks_to_apply =
     apply_filters (map (\<lambda>build. build\<lparr>build_num := Str (py_str (build_num build))\<rparr>) builds_found)
       checks_to_apply"

subsection \<open>Builds\<close>

text \<open>\<open>Job(name=.., url=..)\<close> and \<open>Build(build_id, status, duration)\<close>: nothing below them yet.\<close>

definition Job :: "string \<Rightarrow> string option \<Rightarrow> 'f job" where
  "Job n u = \<lparr>name = n, url = u, builds = []\<rparr>"

definition Build :: "string \<Rightarrow> string option \<Rightarrow> int option \<Rightarrow> 'f build" where
  "Build i st d = \<lparr>build_id = i, status = st, duration = d, tests = []\<rparr>"

text \<open>
  \<open>jobs_found[job_name].add_build(build)\<close>, after \<open>jobs_found[job_name] = Job(..)\<close> where the
  job was not there.
\<close>

definition found_build :: "elk_build \<Rightarrow> (string \<times> 'f job) list \<Rightarrow> (string \<times> 'f job) list" where
  "found_build build jobs_found =
     (let job = (case map_of jobs_found (job_name build) of
                   None \<Rightarrow> Job (job_name build) (Some (job_url build))
                 | Some j \<Rightarrow> j)
      in AList.update (job_name build)
           (add_build (Build (py_str (build_num build)) (build_result build)
                         (build_duration build)) job)
           jobs_found)"

text \<open>
  \<open>sorted(builds.keys(), key=int)[-1]\<close>. The sort works out \<open>int\<close> of every key first, and
  \<open>ValueError\<close> is raised when \<open>int\<close> raises on one of them; then the keys are put in
  ascending order of these numbers, keys with the same number keeping their order.
\<close>

definition last_build_number :: "string list \<Rightarrow> error + string" where
  "last_build_number keys =
     (case those (map (\<lambda>k. map_option (\<lambda>i. (i, k)) (py_int k)) keys) of
        None \<Rightarrow> Inl ValueError
      | Some decorated \<Rightarrow>
          (case sort_key fst decorated of
             [] \<Rightarrow> Inl IndexError
           | x # xs \<Rightarrow> Inr (snd (last (x # xs)))))"

text \<open>The loop of \<open>get_last_build\<close> over the jobs, \<open>job_object\<close> being filled.\<close>

fun get_last_build_loop ::
  "(string \<times> 'f job) list \<Rightarrow> (string \<times> 'f job) list \<Rightarrow> error + (string \<times> 'f job) list" where
  "get_last_build_loop [] job_object = Inr job_object"
| "get_last_build_loop ((jname, build_info) # rest) job_object =
     (if builds build_info = [] then get_last_build_loop rest job_object
      else
        (case last_build_number (map fst (builds build_info)) of
           Inl e \<Rightarrow> Inl e
         | Inr last_number \<Rightarrow>
             (case map_of (builds build_info) last_number of
                None \<Rightarrow> Inl KeyError
              | Some last_build_info \<Rightarrow>
                  get_last_build_loop rest
                    (AList.update jname
                       (add_build last_build_info (Job jname (url build_info)))
                       job_object))))"

definition get_last_build :: "(string \<times> 'f job) list \<Rightarrow> error + (string \<times> 'f job) list" where
  "get_last_build builds_jobs = get_last_build_loop builds_jobs []"

text \<open>
  \<open>get_builds\<close>. \<open>hits\<close> is what the query of the index returns: the documents found, or
  \<open>None\<close> when it raises \<open>ElasticSearchError\<close>.
\<close>

definition get_builds ::
  "('p, 'f) lib \<Rightarrow> api_kwargs \<Rightarrow> elk_build list option \<Rightarrow> error + (string \<times> 'f job) list" where
  "get_builds L kw hits =
     (case hits of
        None \<Rightarrow> Inl ElasticSearchError
      | Some hits0 \<Rightarrow>
          (let build_filters = get_build_filters kw;
               filtering_builds = (build_filters \<noteq> [])
           in case filter_jobs L kw hits0 of
                Inl e \<Rightarrow> Inl e
              | Inr hits1 \<Rightarrow>
                  (let hits2 = filter_builds hits1 build_filters;
                       jobs_found = fold found_build hits2 [];
                       final_jobs = (if filtering_builds
                                     then filter (\<lambda>(jname, job). has_builds_job job) jobs_found
                                     else jobs_found)
                   in if kw_last_build kw \<noteq> None then get_last_build final_jobs
                      else Inr final_jobs)))"

subsection \<open>Tests\<close>

text \<open>
  Modelled from the spec: \<open>check_builds_for_test\<close> is inherited from a class that is not
  part of the sources at hand. The spec: tests require at least one of builds and
  last-build; without them \<open>MissingArgument\<close> is raised.
\<close>

definition check_builds_for_test :: "api_kwargs \<Rightarrow> error + unit" where
  "check_builds_for_test kw =
     (if kw_builds kw = None \<and> kw_last_build kw = None then Inl MissingArgument else Inr ())"

text \<open>\<open>match_filter_test_by_duration\<close>: all the conditions of the user hold of the duration.\<close>

fun match_filter_test_by_duration ::
  "('p, 'f) lib \<Rightarrow> 'f option \<Rightarrow> ranged list \<Rightarrow> error + bool" where
  "match_filter_test_by_duration L dur [] = Inr True"
| "match_filter_test_by_duration L dur (test_duration_argument # rest) =
     (case range_operators L (operator test_duration_argument) of
        None \<Rightarrow> Inl KeyError
      | Some op \<Rightarrow>
          (case float_of L (operand test_duration_argument) of
             None \<Rightarrow> Inl ValueError
           | Some x \<Rightarrow>
               (case op dur x of
                  None \<Rightarrow> Inl TypeError
                | Some ok \<Rightarrow>
                    if \<not> ok then Inr False
                    else match_filter_test_by_duration L dur rest)))"

text \<open>
  What \<open>get_tests\<close> works out of the arguments before its loop: the pattern of the test
  names, the results asked for in upper case (each the list of its code points), and the
  conditions on the duration.
\<close>

record 'p test_filters =
  tests_pattern :: "'p option"
  test_result_argument :: "nat list list"
  test_duration_arguments :: "ranged list"

text \<open>
  \<open>jobs_found[job_name].builds[build_id].add_test(test)\<close>; both keys are there when
  \<open>get_tests\<close> comes to it.
\<close>

definition found_test ::
  "string \<Rightarrow> string \<Rightarrow> 'f test \<Rightarrow> (string \<times> 'f job) list \<Rightarrow> error + (string \<times> 'f job) list" where
  "found_test jname bid t jobs_found =
     (case map_of jobs_found jname of
        None \<Rightarrow> Inl KeyError
      | Some j \<Rightarrow>
          (case map_of (builds j) bid of
             None \<Rightarrow> Inl KeyError
           | Some b \<Rightarrow>
               Inr (AList.update jname
                      (j\<lparr>builds := AList.update bid (add_test t b) (builds j)\<rparr>)
                      jobs_found)))"

text \<open>The loop \<open>for test in tests.testcase\<close>.\<close>

fun testcase_loop ::
  "('p, 'f) lib \<Rightarrow> 'p test_filters \<Rightarrow> string \<Rightarrow> string \<Rightarrow> 'f testcase list \<Rightarrow>
   (string \<times> 'f job) list \<Rightarrow> error + (string \<times> 'f job) list" where
  "testcase_loop L F jname bid [] jobs_found = Inr jobs_found"
| "testcase_loop L F jname bid (t # rest) jobs_found =
     (let test_status =
            (if tc_failure t then ''FAILURE''
             else if tc_skipped t then ''SKIPPED'' else ''SUCCESS'')
      in if (case tests_pattern F of
               None \<Rightarrow> False
             | Some pattern \<Rightarrow>
                 \<not> ((case tc_classname t of
                        None \<Rightarrow> False
                      | Some c \<Rightarrow> matches_regex L pattern c) \<or>
                     matches_regex L pattern (tc_name t)))
         then testcase_loop L F jname bid rest jobs_found
         else if test_result_argument F \<noteq> [] \<and>
                 code_points test_status \<notin> set (test_result_argument F)
         then testcase_loop L F jname bid rest jobs_found
         else
           (case (if test_duration_arguments F \<noteq> []
                  then match_filter_test_by_duration L (tc_time t) (test_duration_arguments F)
                  else Inr True) of
              Inl e \<Rightarrow> Inl e
            | Inr ok \<Rightarrow>
                if \<not> ok then testcase_loop L F jname bid rest jobs_found
                else
                  (case found_test jname bid
                          \<lparr>test_name = tc_name t, test_result = Some test_status,
                           test_duration =
                             (case tc_time t of
                                None \<Rightarrow> None
                              | Some d \<Rightarrow>
                                  if float_true L d then Some (float_times_1000 L d)
                                  else Some d),
                           class_name = tc_classname t\<rparr>
                          jobs_found of
                     Inl e \<Rightarrow> Inl e
                   | Inr jobs_found' \<Rightarrow>
                       testcase_loop L F jname bid rest jobs_found')))"

text \<open>The loop \<open>for test_suite in test_suites\<close>.\<close>

fun test_suite_loop ::
  "('p, 'f) lib \<Rightarrow> 'p test_filters \<Rightarrow> string \<Rightarrow> string \<Rightarrow> string list \<Rightarrow>
   (string \<times> 'f job) list \<Rightarrow> error + (string \<times> 'f job) list" where
  "test_suite_loop L F jname bid [] jobs_found = Inr jobs_found"
| "test_suite_loop L F jname bid (test_suite # rest) jobs_found =
     (case xml_from_string L test_suite of
        None \<Rightarrow> Inl ParserError
      | Some testcases \<Rightarrow>
          (case testcase_loop L F jname bid testcases jobs_found of
             Inl e \<Rightarrow> Inl e
           | Inr jobs_found' \<Rightarrow> test_suite_loop L F jname bid rest jobs_found'))"

text \<open>The loop \<open>for build in hits\<close> of \<open>get_tests\<close>.\<close>

fun tests_loop ::
  "('p, 'f) lib \<Rightarrow> 'p test_filters \<Rightarrow> elk_build list \<Rightarrow> (string \<times> 'f job) list \<Rightarrow>
   error + (string \<times> 'f job) list" where
  "tests_loop L F [] jobs_found = Inr jobs_found"
| "tests_loop L F (build # rest) jobs_found =
     (case test_suite_loop L F (job_name build) (py_str (build_num build)) (test_results build)
             (found_build build jobs_found) of
        Inl e \<Rightarrow> Inl e
      | Inr jobs_found' \<Rightarrow> tests_loop L F rest jobs_found')"

definition get_tests ::
  "('p, 'f) lib \<Rightarrow> api_kwargs \<Rightarrow> elk_build list option \<Rightarrow> error + (string \<times> 'f job) list" where
  "get_tests L kw hits =
     (case check_builds_for_test kw of
        Inl e \<Rightarrow> Inl e
      | Inr _ \<Rightarrow>
     (case hits of
        None \<Rightarrow> Inl ElasticSearchError
      | Some hits0 \<Rightarrow>
     (case filter_jobs L kw hits0 of
        Inl e \<Rightarrow> Inl e
      | Inr hits1 \<Rightarrow>
     (case (case kw_tests kw of
              None \<Rightarrow> Inr None
            | Some v \<Rightarrow>
                if v = [] then Inr None
                else (case re_compile L (join ''|'' v) of
                        None \<Rightarrow> Inl RegexError
                      | Some pattern \<Rightarrow> Inr (Some pattern))) of
        Inl e \<Rightarrow> Inl e
      | Inr pattern \<Rightarrow>
          (let F = \<lparr>tests_pattern = pattern,
                    test_result_argument =
                      (case kw_test_result kw of None \<Rightarrow> [] | Some v \<Rightarrow> map py_upper v),
                    test_duration_arguments =
                      (case kw_test_duration kw of None \<Rightarrow> [] | Some v \<Rightarrow> v)\<rparr>;
               tests_filtering =
                 (pattern \<noteq> None \<or> test_result_argument F \<noteq> [] \<or>
                  test_duration_arguments F \<noteq> [])
           in case tests_loop L F (filter_builds hits1 (get_build_filters kw)) [] of
                Inl e \<Rightarrow> Inl e
              | Inr jobs_found \<Rightarrow>
                  (let final_jobs =
                         (if tests_filtering
                          then filter (\<lambda>(jname, job). has_tests_job job) jobs_found
                          else jobs_found)
                   in if kw_last_build kw \<noteq> None then get_last_build final_jobs
                      else Inr final_jobs))))))"

section \<open>Examples\<close>

text \<open>
  The environment \<open>prod\<close> with the system \<open>gateA\<close> and its two sources, \<open>jenkins\<close> of
  priority 0 and \<open>elastic\<close> of priority 5. Both have a method \<open>get_jobs\<close>, \<open>elastic\<close> also
  has \<open>get_tests\<close>; the methods return the job \<open>job1\<close>, with its address or with a build,
  in a dictionary of jobs under the key \<open>jobs\<close>, for which \<open>populate\<close> finds the method
  \<open>add_jobs\<close> of the system.
\<close>

definition jenkins :: "(string list, (string \<times> int job) list) source" where
  "jenkins =
     \<lparr>src_name = ''jenkins'', priority = 0, enabled = True,
      methods = (\<lambda>f. if f = ''get_jobs''
                      then Some (\<lambda>kw. Inr [(''jobs'', [(''job1'', Job ''job1'' (Some ''http://jenkins/job1''))])])
                      else None)\<rparr>"

definition elastic :: "(string list, (string \<times> int job) list) source" where
  "elastic =
     \<lparr>src_name = ''elastic'', priority = 5, enabled = True,
      methods = (\<lambda>f. if f = ''get_jobs''
                      then Some (\<lambda>kw. Inr [(''jobs'', [(''job1'', Job ''job1'' (Some ''http://elastic/job1''))])])
                      else if f = ''get_tests''
                      then Some (\<lambda>kw. Inr [(''jobs'',
                        [(''job1'', add_build (Build ''7'' (Some ''SUCCESS'') None) (Job ''job1'' None))])])
                      else None)\<rparr>"

definition gateA :: "(string list, int, (string \<times> int job) list) system" where
  "gateA = \<lparr>sys_name = ''gateA'', sources = [jenkins, elastic], jobs = []\<rparr>"

definition prod :: "(string list, int, (string \<times> int job) list) environment" where
  "prod = \<lparr>env_name = ''prod'', systems = [gateA]\<rparr>"

text \<open>
  The job \<open>job1\<close> as a query for tests returns it, with a build and without its address,
  and the system \<open>gateA\<close> once \<open>job1\<close> with its address has been merged into it.
\<close>

definition job1_tests :: "int job" where
  "job1_tests = add_build (Build ''7'' (Some ''SUCCESS'') None) (Job ''job1'' None)"

definition gateA_jobs :: "(string list, int, (string \<times> int job) list) system" where
  "gateA_jobs = add_job (Job ''job1'' (Some ''http://elastic/job1'')) gateA"

text \<open>
  Arguments of a query: \<open>jobs\<close> and the filter \<open>sources\<close> at level 1, \<open>builds\<close> and \<open>tests\<close> at
  level 2.
\<close>

definition example_args :: "(string \<times> string list argument) list" where
  "example_args =
     [(''jobs'', \<lparr>level = 1, func = Some ''get_jobs'', arg_value = [''job1'']\<rparr>),
      (''sources'', \<lparr>level = 1, func = None, arg_value = [''elastic'']\<rparr>),
      (''builds'', \<lparr>level = 2, func = Some ''get_jobs'', arg_value = []\<rparr>),
      (''tests'', \<lparr>level = 2, func = Some ''get_tests'', arg_value = []\<rparr>)]"

definition example_state :: "(string list, int, (string \<times> int job) list) query_state" where
  "example_state = \<lparr>last_level = - 1, environments = [prod], calls = []\<rparr>"

text \<open>
  For the Elasticsearch source: a library in which no pattern compiles and nothing parses,
  the arguments of a call without a key, and documents of the index. \<open>build_hits\<close> are
  two builds of two jobs, as the unit tests of the source have them, \<open>one_job_hits\<close> two
  builds of one job; \<open>bad_hits\<close> holds a build whose number is not a number.
\<close>

definition example_lib :: "(string, int) lib" where
  "example_lib =
     \<lparr>re_compile = (\<lambda>p. None), re_search = (\<lambda>p s. False), xml_from_string = (\<lambda>s. None),
      float_of = (\<lambda>s. None), float_true = (\<lambda>x. x \<noteq> 0), float_times_1000 = (\<lambda>x. x * 1000),
      range_operators = (\<lambda>s. None)\<rparr>"

definition no_kwargs :: api_kwargs where
  "no_kwargs =
     \<lparr>kw_jobs = None, kw_jobs_scope = None, kw_spec = None, kw_builds = None,
      kw_build_status = None, kw_last_build = None, kw_tests = None, kw_test_result = None,
      kw_test_duration = None\<rparr>"

definition build_hits :: "elk_build list" where
  "build_hits =
     [\<lparr>job_name = ''test'', job_url = ''http://domain.tld/test/'', build_num = Num 1,
       build_result = Some ''SUCCESS'', build_duration = Some 20, test_results = []\<rparr>,
      \<lparr>job_name = ''test2'', job_url = ''http://domain.tld/test2/'', build_num = Str ''2'',
       build_result = Some ''FAIL'', build_duration = Some 10, test_results = []\<rparr>]"

definition one_job_hits :: "elk_build list" where
  "one_job_hits =
     [\<lparr>job_name = ''test'', job_url = ''http://domain.tld/test/'', build_num = Num 1,
       build_result = Some ''SUCCESS'', build_duration = None, test_results = []\<rparr>,
      \<lparr>job_name = ''test'', job_url = ''http://domain.tld/test/'', build_num = Num 2,
       build_result = Some ''FAIL'', build_duration = None, test_results = []\<rparr>]"

definition bad_hits :: "elk_build list" where
  "bad_hits =
     [\<lparr>job_name = ''test'', job_url = ''http://domain.tld/test/'', build_num = Str ''1a'',
       build_result = Some ''SUCCESS'', build_duration = None, test_results = []\<rparr>]"

text \<open>A job with the builds 2, 10 and 3, and a job with a build whose key is not a number.\<close>

definition three_builds :: "(string \<times> int job) list" where
  "three_builds =
     [(''job1'',
       \<lparr>name = ''job1'', url = Some ''http://elastic/job1'',
        builds = [(''2'', Build ''2'' (Some ''SUCCESS'') None),
                  (''10'', Build ''10'' (Some ''FAIL'') None),
                  (''3'', Build ''3'' (Some ''SUCCESS'') None)]\<rparr>)]"

definition bad_builds :: "(string \<times> int job) list" where
  "bad_builds =
     [(''job1'',
       \<lparr>name = ''job1'', url = None,
        builds = [(''2'', Build ''2'' None None), (''1a'', Build ''1a'' None None)]\<rparr>)]"

text \<open>
  A source that answers \<open>get_builds\<close> and \<open>get_tests\<close> as the Elasticsearch source does,
  for given arguments and documents of the index: what the method returns goes to
  \<open>populate\<close> as it is. The source of \<open>gateB\<close> is asked for the last builds and finds
  \<open>bad_hits\<close>, the source of \<open>gateC\<close> is asked for the last builds and finds \<open>build_hits\<close>,
  and the source of \<open>gateT\<close> is asked without any argument.
\<close>

definition elasticsearch :: "api_kwargs \<Rightarrow> elk_build list \<Rightarrow> (string list, int job) source" where
  "elasticsearch kw hits =
     \<lparr>src_name = ''elasticsearch'', priority = 0, enabled = True,
      methods = (\<lambda>f. if f = ''get_builds''
                      then Some (\<lambda>kwargs. get_builds example_lib kw (Some hits))
                      else if f = ''get_tests''
                      then Some (\<lambda>kwargs. get_tests example_lib kw (Some hits))
                      else None)\<rparr>"

definition gateB :: "(string list, int, int job) system" where
  "gateB =
     \<lparr>sys_name = ''gateB'',
      sources = [elasticsearch (no_kwargs\<lparr>kw_last_build := Some []\<rparr>) bad_hits], jobs = []\<rparr>"

definition gateC :: "(string list, int, int job) system" where
  "gateC =
     \<lparr>sys_name = ''gateC'',
      sources = [elasticsearch (no_kwargs\<lparr>kw_last_build := Some []\<rparr>) build_hits], jobs = []\<rparr>"


text \<open>
  The items of what the Elasticsearch source returns are the jobs under their names, so
  for them \<open>populate\<close> looks for a method of the system named \<open>add_\<close> and the name of the
  job. In the examples no method of the system has the name of a job: \<open>hasattr\<close> is false
  for every name \<open>populate\<close> asks for.
\<close>

definition no_methods :: "(string list, int, int job) population" where
  "no_methods m = None"



text \<open>
  Arguments of a query in the order of \<open>parser.ci_args\<close>: \<open>tests\<close> at level 2, the filter
  \<open>sources\<close>, which has no function, and \<open>jobs\<close> at level 1; the same without \<open>sources\<close>;
  and the same with \<open>sources\<close> after \<open>jobs\<close>.
\<close>

definition tests_arg :: "string \<times> string list argument" where
  "tests_arg = (''tests'', \<lparr>level = 2, func = Some ''get_tests'', arg_value = []\<rparr>)"

definition sources_arg :: "string \<times> string list argument" where
  "sources_arg = (''sources'', \<lparr>level = 1, func = None, arg_value = [''elastic'']\<rparr>)"

definition jobs_arg :: "string \<times> string list argument" where
  "jobs_arg = (''jobs'', \<lparr>level = 1, func = Some ''get_jobs'', arg_value = [''job1'']\<rparr>)"

section \<open>The order of the calls of \<open>run_query\<close>\<close>

lemma query_systems_calls:
  "query_systems G P lv f kw ss log = (ss', log', r) \<Longrightarrow>
   \<exists>new. log' = log @ new \<and> (\<forall>c\<in>set new. call_level c = lv \<and> call_func c = f)"
proof (induction ss arbitrary: log ss' log' r)
  case Nil
  then show ?case by simp
next
  case (Cons s ss)
  then show ?case
    by (fastforce split: sum.splits option.splits prod.splits simp: Let_def)
qed

lemma query_environments_calls:
  "query_environments G P lv f kw es log = (es', log', r) \<Longrightarrow>
   \<exists>new. log' = log @ new \<and> (\<forall>c\<in>set new. call_level c = lv \<and> call_func c = f)"
proof (induction es arbitrary: log es' log' r)
  case Nil
  then show ?case by simp
next
  case (Cons e es)
  show ?case
  proof (cases "query_systems G P lv f kw (systems e) log")
    case (fields ss1 log1 r1)
    from query_systems_calls[OF fields] obtain new1 where
      n1: "log1 = log @ new1" "\<forall>c\<in>set new1. call_level c = lv \<and> call_func c = f" by blast
    show ?thesis
    proof (cases r1)
      case (Some e1)
      with Cons.prems fields n1 show ?thesis by auto
    next
      case None
      obtain es2 log2 r2 where q: "query_environments G P lv f kw es log1 = (es2, log2, r2)"
        by (cases "query_environments G P lv f kw es log1") auto
      from Cons.IH[OF q] obtain new2 where
        n2: "log2 = log1 @ new2" "\<forall>c\<in>set new2. call_level c = lv \<and> call_func c = f" by blast
      from Cons.prems fields None q have "log' = log2" by simp
      with n1 n2 show ?thesis by (intro exI[of _ "new1 @ new2"]) auto
    qed
  qed
qed

lemma run_query_step_calls:
  assumes "run_query_step G P start kw arg st = (st', r)"
  shows "\<exists>new. calls st' = calls st @ new \<and>
           (new \<noteq> [] \<longrightarrow> start \<le> level arg \<and> last_level st \<le> level arg) \<and>
           (\<forall>c\<in>set new. call_level c = level arg \<and> func arg = Some (call_func c))"
proof (cases "level arg \<ge> start \<and> level arg \<ge> last_level st")
  case False
  with assms show ?thesis by (auto simp: run_query_step_def)
next
  case gate: True
  show ?thesis
  proof (cases "func arg")
    case None
    with assms gate show ?thesis by (auto simp: run_query_step_def)
  next
    case (Some f)
    show ?thesis
    proof (cases "f = []")
      case True
      with assms gate Some show ?thesis by (auto simp: run_query_step_def)
    next
      case False
      obtain es log r1 where
        q: "query_environments G P (level arg) f kw (environments st) (calls st) = (es, log, r1)"
        by (cases "query_environments G P (level arg) f kw (environments st) (calls st)") auto
      from query_environments_calls[OF q] obtain new where
        n: "log = calls st @ new" "\<forall>c\<in>set new. call_level c = level arg \<and> call_func c = f"
        by blast
      from assms gate Some False q have "calls st' = log"
        by (auto simp: run_query_step_def split: option.splits)
      with n gate Some show ?thesis by auto
    qed
  qed
qed

lemma run_query_loop_calls:
  assumes "sorted_wrt (\<lambda>a b. level b \<le> level a) args"
    and "run_query_loop G P start kw args st = (st', r)"
  shows "\<exists>new. calls st' = calls st @ new \<and>
           sorted_wrt (\<lambda>c d. call_level d \<le> call_level c) new \<and>
           (\<forall>c\<in>set new. start \<le> call_level c \<and>
              (\<exists>a\<in>set args. level a = call_level c \<and> func a = Some (call_func c)))"
  using assms
proof (induction args arbitrary: st st' r)
  case Nil
  then show ?case by simp
next
  case (Cons a args)
  obtain st1 r1 where s: "run_query_step G P start kw a st = (st1, r1)"
    by (cases "run_query_step G P start kw a st") auto
  from run_query_step_calls[OF s] obtain new1 where
    n1: "calls st1 = calls st @ new1"
        "new1 \<noteq> [] \<longrightarrow> start \<le> level a \<and> last_level st \<le> level a"
        "\<forall>c\<in>set new1. call_level c = level a \<and> func a = Some (call_func c)"
    by blast
  have s1: "sorted_wrt (\<lambda>c d. call_level d \<le> call_level c) new1"
    using n1(3) by (induction new1) auto
  have b1: "\<forall>c\<in>set new1. start \<le> call_level c"
    using n1(2,3) by auto
  show ?case
  proof (cases r1)
    case (Some e)
    with Cons.prems s have "st' = st1" by simp
    with n1 s1 b1 show ?thesis by (intro exI[of _ new1]) auto
  next
    case None
    with Cons.prems s have l: "run_query_loop G P start kw args st1 = (st', r)" by simp
    from Cons.prems(1) have "sorted_wrt (\<lambda>a b. level b \<le> level a) args" by simp
    from Cons.IH[OF this l] obtain new2 where
      n2: "calls st' = calls st1 @ new2"
          "sorted_wrt (\<lambda>c d. call_level d \<le> call_level c) new2"
          "\<forall>c\<in>set new2. start \<le> call_level c \<and>
              (\<exists>a\<in>set args. level a = call_level c \<and> func a = Some (call_func c))"
      by blast
    have cross: "\<forall>c1\<in>set new1. \<forall>c2\<in>set new2. call_level c2 \<le> call_level c1"
      using n1(3) n2(3) Cons.prems(1) by fastforce
    have "sorted_wrt (\<lambda>c d. call_level d \<le> call_level c) (new1 @ new2)"
      using s1 n2(2) cross by (auto simp: sorted_wrt_append)
    with n1 n2 b1 show ?thesis by (intro exI[of _ "new1 @ new2"]) auto
  qed
qed

lemma sorted_reverse_sorted: "sorted_wrt (\<lambda>a b. k b \<le> k a) (sorted_reverse k xs)"
proof -
  have "sorted (map (\<lambda>x. - k x) (sort_key (\<lambda>x. - k x) xs))" by (rule sorted_sort_key)
  then show ?thesis
    unfolding sorted_reverse_def
    by (induction "sort_key (\<lambda>x. - k x) xs") (auto simp: sorted_wrt_map)
qed

lemma mset_sorted_reverse: "mset (sorted_reverse k xs) = mset xs"
  by (simp add: sorted_reverse_def)

lemma run_query_calls:
  "sorted_wrt (\<lambda>c d. call_level d \<le> call_level c) (calls (fst (run_query G P start ci_args envs))) \<and>
   (\<forall>c\<in>set (calls (fst (run_query G P start ci_args envs))). start \<le> call_level c \<and>
      (\<exists>a\<in>set (map snd ci_args). level a = call_level c \<and> func a = Some (call_func c)))"
proof -
  obtain st' r where q: "run_query G P start ci_args envs = (st', r)"
    by (cases "run_query G P start ci_args envs") auto
  have sorted: "sorted_wrt (\<lambda>a b. level b \<le> level a) (processing_order ci_args)"
    by (simp add: processing_order_def sorted_reverse_sorted)
  have same: "set (processing_order ci_args) = set (map snd ci_args)"
    using mset_sorted_reverse[of level "map snd ci_args"]
    by (metis processing_order_def set_mset_mset)
  from run_query_loop_calls[OF sorted q[unfolded run_query_def]] same q
  show ?thesis by auto
qed

text \<open>
  C1. \<open>run_query\<close> goes through the arguments in descending order of their level, and
  through all of them. A turn of its loop calls a source method only if the level of the
  argument is at least \<open>start_level\<close> and at least \<open>last_level\<close>, which is \<open>- 1\<close> at first.
  So, for all arguments and every \<open>start_level\<close>, the levels of the calls never increase
  from one call to the next, and every call is made for an argument of the query whose
  level is at least \<open>start_level\<close>: an argument below \<open>start_level\<close> never triggers a fetch.
\<close>

theorem run_query_level_order:
  "sorted_wrt (\<lambda>a b. level b \<le> level a) (processing_order ci_args) \<and>
   mset (processing_order ci_args) = mset (map snd ci_args) \<and>
   last_level (fst (run_query G P start_level [] envs)) = - 1 \<and>
   (calls (fst (run_query_step G P start_level kw arg st)) \<noteq> calls st \<longrightarrow>
      start_level \<le> level arg \<and> last_level st \<le> level arg) \<and>
   sorted_wrt (\<lambda>c d. call_level d \<le> call_level c)
     (calls (fst (run_query G P start_level ci_args envs))) \<and>
   (\<forall>c\<in>set (calls (fst (run_query G P start_level ci_args envs))).
      start_level \<le> call_level c \<and>
      (\<exists>a\<in>set (map snd ci_args). level a = call_level c \<and> func a = Some (call_func c)))"
proof -
  have gate: "calls (fst (run_query_step G P start_level kw arg st)) \<noteq> calls st \<longrightarrow>
      start_level \<le> level arg \<and> last_level st \<le> level arg"
    using run_query_step_calls[of G P start_level kw arg st]
    by (cases "run_query_step G P start_level kw arg st") auto
  have init: "last_level (fst (run_query G P start_level [] envs)) = - 1"
    by (simp add: run_query_def processing_order_def sorted_reverse_def)
  show ?thesis
    using gate init run_query_calls[of G P start_level ci_args envs]
    by (simp add: processing_order_def sorted_reverse_sorted mset_sorted_reverse)
qed

theorem run_query_level_order_witness:
  "calls (fst (run_query_step get_source_method system_methods 1 []
            \<lparr>level = 2, func = Some ''get_tests'', arg_value = []\<rparr> example_state))
     \<noteq> calls example_state \<and>
   (1 \<le> level \<lparr>level = 2, func = Some ''get_tests'', arg_value = ([] :: string list)\<rparr> \<and>
    last_level example_state
      \<le> level \<lparr>level = 2, func = Some ''get_tests'', arg_value = ([] :: string list)\<rparr>) \<and>
   map call_level (calls (fst (run_query get_source_method system_methods 1 example_args [prod])))
     = [2, 2] \<and>
   sorted_wrt (\<lambda>c d. call_level d \<le> call_level c)
     (calls (fst (run_query get_source_method system_methods 1 example_args [prod]))) \<and>
   list_all (\<lambda>c. 1 \<le> call_level c \<and>
               list_ex (\<lambda>a. level a = call_level c \<and> func a = Some (call_func c))
                 (map snd example_args))
     (calls (fst (run_query get_source_method system_methods 1 example_args [prod])))"
proof -
  have h1: "calls (fst (run_query_step get_source_method system_methods 1 []
            \<lparr>level = 2, func = Some ''get_tests'', arg_value = []\<rparr> example_state))
     \<noteq> calls example_state"
    by code_simp
  have h2: "map call_level
      (calls (fst (run_query get_source_method system_methods 1 example_args [prod]))) = [2, 2]"
    by code_simp
  show ?thesis
    unfolding list_all_iff list_ex_iff
    using h1 h2
      run_query_level_order[of example_args get_source_method system_methods 1 "[prod]" "[]"
        "\<lparr>level = 2, func = Some ''get_tests'', arg_value = []\<rparr>" example_state]
    by blast
qed

section \<open>Arguments without a function\<close>

text \<open>
  A turn of the loop for an argument without a function calls no source and raises
  nothing. Where the argument passes the test on the levels, \<open>continue\<close> ends the turn;
  where it fails the test, the turn ends with \<open>last_level = arg.level\<close>.
\<close>

lemma run_query_step_no_func:
  "no_func arg \<Longrightarrow>
   run_query_step G P start_level kw arg st =
     (if start_level \<le> level arg \<and> last_level st \<le> level arg then (st, None)
      else (st\<lparr>last_level := level arg\<rparr>, None))"
  by (auto simp: run_query_step_def no_func_def split: option.splits)

text \<open>
  C2. The code breaks the claim. An argument without a function is not to be considered
  in \<open>run_query\<close>, as the comment at its \<open>continue\<close> says, and where such an argument passes
  the test on the levels the turn does end with \<open>last_level\<close> as it was. Where it fails the
  test, the turn sets \<open>last_level\<close> to its level all the same. In a query for \<open>tests\<close> at
  level 2, then the filter \<open>sources\<close> and \<open>jobs\<close> at level 1, \<open>last_level\<close> is 2 after \<open>tests\<close>
  and the turn for \<open>sources\<close> takes it to 1. So \<open>jobs\<close>, which is below the level of \<open>tests\<close>
  and is not fetched when \<open>sources\<close> is not there or comes after \<open>jobs\<close>, is fetched:
  \<open>get_jobs\<close> is called after \<open>get_tests\<close>, and the job gets its address from it.
\<close>

theorem filter_only_sets_last_level:
  "no_func (snd sources_arg) \<and>
   last_level (fst (run_query get_source_method system_methods 1 [tests_arg] [prod])) = 2 \<and>
   last_level (fst (run_query_step get_source_method system_methods 1 [] (snd sources_arg)
      (fst (run_query get_source_method system_methods 1 [tests_arg] [prod])))) = 1 \<and>
   last_level (fst (run_query get_source_method system_methods 1
      [tests_arg, sources_arg] [prod])) = 1 \<and>
   map call_func (calls (fst (run_query get_source_method system_methods 1
      [tests_arg, sources_arg, jobs_arg] [prod]))) = [''get_tests'', ''get_jobs''] \<and>
   map call_func (calls (fst (run_query get_source_method system_methods 1
      [tests_arg, jobs_arg] [prod]))) = [''get_tests''] \<and>
   map call_func (calls (fst (run_query get_source_method system_methods 1
      [tests_arg, jobs_arg, sources_arg] [prod]))) = [''get_tests''] \<and>
   map (\<lambda>env. map (\<lambda>system. map (\<lambda>(jn, j). (jn, url j)) (jobs system)) (systems env))
     (environments (fst (run_query get_source_method system_methods 1
        [tests_arg, sources_arg, jobs_arg] [prod]))) =
     [[[(''job1'', Some ''http://elastic/job1'')]]] \<and>
   map (\<lambda>env. map (\<lambda>system. map (\<lambda>(jn, j). (jn, url j)) (jobs system)) (systems env))
     (environments (fst (run_query get_source_method system_methods 1
        [tests_arg, jobs_arg] [prod]))) =
     [[[(''job1'', None)]]]"
  by code_simp

section \<open>Source resolution\<close>

lemma preferred_trans: "preferred a b \<Longrightarrow> preferred b c \<Longrightarrow> preferred a c"
  by (auto simp: preferred_def)

lemma not_preferred_iff:
  "\<not> preferred t s \<longleftrightarrow>
     priority t \<le> priority s \<and> (priority t = priority s \<longrightarrow> src_name s \<le> src_name t)"
  by (auto simp: preferred_def)

lemma fold_preferred_mem:
  "fold (\<lambda>t best. if preferred (fst t) (fst best) then t else best) rest c \<in> set (c # rest)"
  by (induction rest arbitrary: c) auto

lemma fold_preferred_keeps:
  "\<not> preferred u (fst c) \<Longrightarrow>
   \<not> preferred u (fst (fold (\<lambda>t best. if preferred (fst t) (fst best) then t else best) rest c))"
proof (induction rest arbitrary: c)
  case Nil
  then show ?case by simp
next
  case (Cons a rest)
  show ?case
  proof (cases "preferred (fst a) (fst c)")
    case True
    have "\<not> preferred u (fst a)"
      using Cons.prems True preferred_trans by blast
    from Cons.IH[OF this] True show ?thesis by simp
  next
    case False
    with Cons.IH[OF Cons.prems] show ?thesis by simp
  qed
qed

lemma preferred_irrefl: "\<not> preferred s s"
  by (simp add: preferred_def)

lemma fold_preferred_best:
  "t \<in> set (c # rest) \<Longrightarrow>
   \<not> preferred (fst t)
       (fst (fold (\<lambda>t best. if preferred (fst t) (fst best) then t else best) rest c))"
proof (induction rest arbitrary: c)
  case Nil
  then show ?case by (simp add: preferred_irrefl)
next
  case (Cons a rest)
  show ?case
  proof (cases "preferred (fst a) (fst c)")
    case True
    note pa = True
    show ?thesis
    proof (cases "t = c")
      case True
      have "\<not> preferred (fst c) (fst a)" using pa by (auto simp: preferred_def)
      from fold_preferred_keeps[OF this] pa True show ?thesis by simp
    next
      case False
      with Cons.prems have "t \<in> set (a # rest)" by simp
      from Cons.IH[OF this] pa show ?thesis by simp
    qed
  next
    case False
    note npa = False
    show ?thesis
    proof (cases "t = a")
      case True
      from fold_preferred_keeps[OF npa] npa True show ?thesis by simp
    next
      case False
      with Cons.prems have "t \<in> set (c # rest)" by auto
      from Cons.IH[OF this] npa show ?thesis by simp
    qed
  qed
qed

lemma set_candidates:
  "set (candidates f srcs) = {(s, m). s \<in> set srcs \<and> enabled s \<and> methods s f = Some m}"
  by (auto simp: candidates_def split: if_splits option.splits)

lemma get_source_method_Inr:
  assumes "get_source_method n srcs f = Inr (s, m)"
  shows "s \<in> set srcs \<and> enabled s \<and> methods s f = Some m \<and>
         (\<forall>t\<in>set srcs. enabled t \<and> methods t f \<noteq> None \<longrightarrow>
            priority t \<le> priority s \<and> (priority t = priority s \<longrightarrow> src_name s \<le> src_name t))"
proof (cases "candidates f srcs")
  case Nil
  with assms show ?thesis by (simp add: get_source_method_def)
next
  case (Cons c cs)
  let ?best = "fold (\<lambda>t best. if preferred (fst t) (fst best) then t else best) cs c"
  from assms Cons have s: "(s, m) = ?best" by (simp add: get_source_method_def)
  have "?best \<in> set (c # cs)" by (rule fold_preferred_mem)
  with Cons s have mem: "(s, m) \<in> set (candidates f srcs)" by simp
  have best: "\<forall>t\<in>set (candidates f srcs). \<not> preferred (fst t) s"
    using fold_preferred_best[of _ c cs] s Cons by (metis fst_conv)
  have "\<not> preferred t s" if "t \<in> set srcs" "enabled t" "methods t f \<noteq> None" for t
  proof -
    from that obtain mt where "(t, mt) \<in> set (candidates f srcs)"
      by (auto simp: set_candidates)
    with best show ?thesis by force
  qed
  with mem show ?thesis by (auto simp: not_preferred_iff set_candidates)
qed

lemma get_source_method_Inl:
  "get_source_method n srcs f = Inl e \<longleftrightarrow>
     e = NoCapableSource n f \<and> (\<forall>t\<in>set srcs. \<not> (enabled t \<and> methods t f \<noteq> None))"
proof (cases "candidates f srcs")
  case Nil
  then have "set (candidates f srcs) = {}" by simp
  then have "\<forall>t\<in>set srcs. \<not> (enabled t \<and> methods t f \<noteq> None)"
    unfolding set_candidates by auto
  with Nil show ?thesis by (auto simp: get_source_method_def)
next
  case (Cons c cs)
  then have "c \<in> set (candidates f srcs)" by simp
  then have "\<exists>t\<in>set srcs. enabled t \<and> methods t f \<noteq> None"
    unfolding set_candidates by auto
  with Cons show ?thesis by (auto simp: get_source_method_def)
qed

lemma get_source_method_order:
  assumes d: "distinct (map src_name srcs)" and e: "set srcs' = set srcs"
  shows "get_source_method n srcs' f = get_source_method n srcs f"
proof (cases "get_source_method n srcs f")
  case (Inl e1)
  then have "e1 = NoCapableSource n f \<and> (\<forall>t\<in>set srcs'. \<not> (enabled t \<and> methods t f \<noteq> None))"
    using e by (simp add: get_source_method_Inl)
  then have "get_source_method n srcs' f = Inl e1"
    by (simp add: get_source_method_Inl)
  with Inl show ?thesis by simp
next
  case (Inr r)
  obtain s m where r: "r = (s, m)" by (cases r)
  note a = get_source_method_Inr[OF Inr[unfolded r]]
  have "\<exists>r'. get_source_method n srcs' f = Inr r'"
  proof (cases "get_source_method n srcs' f")
    case (Inl e1)
    then have "\<forall>t\<in>set srcs. \<not> (enabled t \<and> methods t f \<noteq> None)"
      using e by (simp add: get_source_method_Inl)
    with a show ?thesis by auto
  next
    case (Inr r')
    then show ?thesis by blast
  qed
  then obtain s' m' where s': "get_source_method n srcs' f = Inr (s', m')" by force
  note b = get_source_method_Inr[OF s']
  from a b e have "priority s = priority s'" by (metis order_antisym option.distinct(1))
  with a b e have "src_name s = src_name s'" by (metis order_antisym option.distinct(1))
  moreover have "inj_on src_name (set srcs)" using d by (simp add: distinct_map)
  ultimately have "s = s'" using a b e by (auto dest: inj_onD)
  with a b have "m = m'" by simp
  with \<open>s = s'\<close> Inr r s' show ?thesis by simp
qed

lemma query_systems_one_call:
  "query_systems G P lv f kw ss log = (ss', log', None) \<Longrightarrow>
   \<exists>new. log' = log @ new \<and>
     list_all2 (\<lambda>system c. call_system c = sys_name system \<and>
        (\<exists>src m. G (sys_name system) (sources system) f = Inr (src, m) \<and>
           call_source c = src_name src))
       ss new"
proof (induction ss arbitrary: log ss' log')
  case Nil
  then show ?case by simp
next
  case (Cons s ss)
  from Cons.prems obtain src m mi where
    g: "G (sys_name s) (sources s) f = Inr (src, m)" and r: "m kw = Inr mi"
    by (auto split: sum.splits option.splits prod.splits simp: Let_def)
  let ?c = "\<lparr>call_level = lv, call_func = f, call_system = sys_name s, call_source = src_name src\<rparr>"
  obtain ss2 log2 r2 where q: "query_systems G P lv f kw ss (log @ [?c]) = (ss2, log2, r2)"
    by (cases "query_systems G P lv f kw ss (log @ [?c])") auto
  with Cons.prems g r have eq: "log' = log2" "r2 = None" by (auto simp: Let_def)
  from Cons.IH[OF q[unfolded eq(2)]] obtain new where
    n: "log2 = (log @ [?c]) @ new"
       "list_all2 (\<lambda>system c. call_system c = sys_name system \<and>
        (\<exists>src m. G (sys_name system) (sources system) f = Inr (src, m) \<and>
           call_source c = src_name src))
       ss new" by blast
  show ?case using n eq g by (intro exI[of _ "?c # new"]) auto
qed

lemma query_sources_order:
  "sorted_wrt (\<lambda>a b. priority b \<le> priority a) (query_sources system) \<and>
   mset (query_sources system) = mset (sources system)"
  by (simp add: query_sources_def sorted_reverse_sorted mset_sorted_reverse)

text \<open>
  C3. When the resolver returns a source, it is one of the sources of the system, enabled
  and with the method asked for, and no such source of the system has a higher priority or,
  at the same priority, a name that comes before its name. It returns a source exactly when
  the system has such a source. With fixed priorities the result is determined: where the
  names of the sources are distinct it does not depend on the order in which the system
  lists them. For every system \<open>run_query\<close> makes one call, to the source resolved for that
  system. For \<open>jenkins\<close> of priority 0 and \<open>elastic\<close> of priority 5, both with \<open>get_jobs\<close>,
  the resolver returns \<open>elastic\<close>.
\<close>

theorem source_resolution:
  "(get_source_method n srcs f = Inr (s, m) \<longrightarrow>
      s \<in> set srcs \<and> enabled s \<and> methods s f = Some m \<and>
      (\<forall>t\<in>set srcs. enabled t \<and> methods t f \<noteq> None \<longrightarrow>
         priority t \<le> priority s \<and> (priority t = priority s \<longrightarrow> src_name s \<le> src_name t))) \<and>
   ((\<exists>r. get_source_method n srcs f = Inr r) \<longleftrightarrow>
      (\<exists>t\<in>set srcs. enabled t \<and> methods t f \<noteq> None)) \<and>
   (distinct (map src_name srcs) \<and> set srcs' = set srcs \<longrightarrow>
      get_source_method n srcs' f = get_source_method n srcs f) \<and>
   (query_systems get_source_method P lv f kw ss log = (ss', log', None) \<longrightarrow>
      (\<exists>new. log' = log @ new \<and>
         list_all2 (\<lambda>system c. call_system c = sys_name system \<and>
            (\<exists>src m. get_source_method (sys_name system) (sources system) f = Inr (src, m) \<and>
               call_source c = src_name src)) ss new)) \<and>
   map_sum id fst (get_source_method ''gateA'' [jenkins, elastic] ''get_jobs'') = Inr elastic"
proof -
  have a: "get_source_method n srcs f = Inr (s, m) \<longrightarrow>
      s \<in> set srcs \<and> enabled s \<and> methods s f = Some m \<and>
      (\<forall>t\<in>set srcs. enabled t \<and> methods t f \<noteq> None \<longrightarrow>
         priority t \<le> priority s \<and> (priority t = priority s \<longrightarrow> src_name s \<le> src_name t))"
    using get_source_method_Inr[of n srcs f s m] by blast
  have b: "(\<exists>r. get_source_method n srcs f = Inr r) \<longleftrightarrow>
      (\<exists>t\<in>set srcs. enabled t \<and> methods t f \<noteq> None)"
  proof (cases "get_source_method n srcs f")
    case (Inl e)
    then have "\<forall>t\<in>set srcs. \<not> (enabled t \<and> methods t f \<noteq> None)"
      by (simp add: get_source_method_Inl)
    with Inl show ?thesis by auto
  next
    case (Inr r)
    obtain s1 m1 where "r = (s1, m1)" by (cases r)
    with get_source_method_Inr[of n srcs f s1 m1] Inr show ?thesis by auto
  qed
  have c: "distinct (map src_name srcs) \<and> set srcs' = set srcs \<longrightarrow>
      get_source_method n srcs' f = get_source_method n srcs f"
    using get_source_method_order by blast
  have d: "query_systems get_source_method P lv f kw ss log = (ss', log', None) \<longrightarrow>
      (\<exists>new. log' = log @ new \<and>
         list_all2 (\<lambda>system c. call_system c = sys_name system \<and>
            (\<exists>src m. get_source_method (sys_name system) (sources system) f = Inr (src, m) \<and>
               call_source c = src_name src)) ss new)"
    using query_systems_one_call[of get_source_method P lv f kw ss log ss' log'] by blast
  have e: "map_sum id fst (get_source_method ''gateA'' [jenkins, elastic] ''get_jobs'') = Inr elastic"
    by (simp add: get_source_method_def candidates_def preferred_def jenkins_def elastic_def)
  from a b c d e show ?thesis by blast
qed

theorem source_resolution_witness:
  "map_sum id fst (get_source_method ''gateA'' [jenkins, elastic] ''get_jobs'') = Inr elastic \<and>
   (\<exists>m. get_source_method ''gateA'' [jenkins, elastic] ''get_jobs'' = Inr (elastic, m)) \<and>
   elastic \<in> set [jenkins, elastic] \<and> enabled elastic \<and> methods elastic ''get_jobs'' \<noteq> None \<and>
   jenkins \<in> set [jenkins, elastic] \<and> enabled jenkins \<and> methods jenkins ''get_jobs'' \<noteq> None \<and>
   priority jenkins \<le> priority elastic \<and>
   distinct (map src_name [jenkins, elastic]) \<and>
   set [elastic, jenkins] = set [jenkins, elastic] \<and>
   map_sum id fst (get_source_method ''gateA'' [elastic, jenkins] ''get_jobs'') = Inr elastic \<and>
   snd (snd (query_systems get_source_method system_methods 1 ''get_jobs'' [] [gateA] [])) = None \<and>
   map call_source
     (fst (snd (query_systems get_source_method system_methods 1 ''get_jobs'' [] [gateA] [])))
     = [''elastic'']"
proof -
  have h1: "enabled jenkins \<and> methods jenkins ''get_jobs'' \<noteq> None \<and> enabled elastic \<and>
      methods elastic ''get_jobs'' \<noteq> None"
    by (simp add: jenkins_def elastic_def)
  have h2: "distinct (map src_name [jenkins, elastic])"
    by (simp add: jenkins_def elastic_def)
  have h3: "set [elastic, jenkins] = set [jenkins, elastic]" by auto
  have h4: "snd (snd (query_systems get_source_method system_methods 1 ''get_jobs'' [] [gateA] []))
      = None"
    by code_simp
  have h5: "map call_source
     (fst (snd (query_systems get_source_method system_methods 1 ''get_jobs'' [] [gateA] [])))
     = [''elastic'']"
    by code_simp
  obtain m where m: "methods elastic ''get_jobs'' = Some m" using h1 by auto
  have r0: "map_sum id fst (get_source_method ''gateA'' [jenkins, elastic] ''get_jobs'') =
      Inr elastic"
    using source_resolution[of "''gateA''" "[jenkins, elastic]" "''get_jobs''" elastic m
      "[elastic, jenkins]" system_methods 1 "[]" "[gateA]" "[]" "[]" "[]"]
    by blast
  then obtain m' where r: "get_source_method ''gateA'' [jenkins, elastic] ''get_jobs'' =
      Inr (elastic, m')"
    by (cases "get_source_method ''gateA'' [jenkins, elastic] ''get_jobs''") auto
  note t = source_resolution[of "''gateA''" "[jenkins, elastic]" "''get_jobs''" elastic m'
      "[elastic, jenkins]" system_methods 1 "[]" "[gateA]" "[]"
      "fst (query_systems get_source_method system_methods 1 ''get_jobs'' [] [gateA] [])"
      "fst (snd (query_systems get_source_method system_methods 1 ''get_jobs'' [] [gateA] []))"]
  from t r h1 have p: "priority jenkins \<le> priority elastic" by simp
  from t h2 h3 r0 have o: "map_sum id fst
      (get_source_method ''gateA'' [elastic, jenkins] ''get_jobs'') = Inr elastic"
    by simp
  from r0 r h1 h2 h3 h4 h5 p o show ?thesis by auto
qed

section \<open>The last build\<close>

lemma those_decorate:
  "those (map (\<lambda>k. map_option (\<lambda>i. (i, k)) (py_int k)) keys) =
     (if \<forall>k\<in>set keys. py_int k \<noteq> None
      then Some (map (\<lambda>k. (the (py_int k), k)) keys) else None)"
  by (induction keys) (auto split: option.splits)

lemma sorted_le_last: "sorted ys \<Longrightarrow> y \<in> set ys \<Longrightarrow> y \<le> last ys"
  by (induction ys) auto

lemma last_sort_key_max:
  assumes "x \<in> set xs"
  shows "f x \<le> f (last (sort_key f xs))"
proof -
  have ne: "sort_key f xs \<noteq> []" using assms by (metis empty_iff set_empty set_sort)
  have "sorted (map f (sort_key f xs))" by (rule sorted_sort_key)
  moreover have "f x \<in> set (map f (sort_key f xs))" using assms by simp
  ultimately have "f x \<le> last (map f (sort_key f xs))" by (rule sorted_le_last)
  then show ?thesis using ne by (simp add: last_map)
qed

lemma last_build_number_numeric:
  assumes "keys \<noteq> []" and "\<forall>k\<in>set keys. py_int k \<noteq> None"
  shows "\<exists>k n. last_build_number keys = Inr k \<and> k \<in> set keys \<and> py_int k = Some n \<and>
           (\<forall>k'\<in>set keys. \<exists>n'. py_int k' = Some n' \<and> n' \<le> n)"
proof -
  let ?d = "map (\<lambda>k. (the (py_int k), k)) keys"
  have dne: "?d \<noteq> []" using assms(1) by simp
  then have sne: "sort_key fst ?d \<noteq> []" by (metis length_0_conv length_sort)
  let ?l = "last (sort_key fst ?d)"
  have r: "last_build_number keys = Inr (snd ?l)"
    using assms(2) sne by (simp add: last_build_number_def those_decorate split: list.splits)
  have "?l \<in> set (sort_key fst ?d)" using sne by (rule last_in_set)
  then have lm: "?l \<in> set ?d" by simp
  then have mem: "snd ?l \<in> set keys" and fs: "fst ?l = the (py_int (snd ?l))" by auto
  have mx: "\<forall>k'\<in>set keys. the (py_int k') \<le> fst ?l"
  proof
    fix k' assume "k' \<in> set keys"
    then have "(the (py_int k'), k') \<in> set ?d" by simp
    from last_sort_key_max[OF this, of fst] show "the (py_int k') \<le> fst ?l" by simp
  qed
  from assms(2) mem obtain n where n: "py_int (snd ?l) = Some n" by auto
  with fs mx assms(2) have "\<forall>k'\<in>set keys. \<exists>n'. py_int k' = Some n' \<and> n' \<le> n" by fastforce
  with r mem n show ?thesis by blast
qed

lemma last_build_number_non_numeric:
  "k \<in> set keys \<Longrightarrow> py_int k = None \<Longrightarrow> last_build_number keys = Inl ValueError"
  by (auto simp: last_build_number_def those_decorate)


lemma last_build_number_Inr:
  assumes "last_build_number keys = Inr k"
  shows "k \<in> set keys \<and> (\<forall>k'\<in>set keys. py_int k' \<noteq> None)"
proof -
  from assms have num: "\<forall>k'\<in>set keys. py_int k' \<noteq> None"
    by (auto simp: last_build_number_def those_decorate split: if_splits)
  from assms have "keys \<noteq> []"
    by (auto simp: last_build_number_def)
  from last_build_number_numeric[OF this num] assms show ?thesis using num by auto
qed

lemma last_build_number_Inl:
  assumes "last_build_number keys = Inl e" and "keys \<noteq> []"
  shows "e = ValueError"
proof (cases "\<forall>k\<in>set keys. py_int k \<noteq> None")
  case True
  from last_build_number_numeric[OF assms(2) True] assms(1) show ?thesis by auto
next
  case False
  then show ?thesis using assms(1) last_build_number_non_numeric by fastforce
qed

lemma add_build_Job:
  "add_build b (Job jn u) = \<lparr>name = jn, url = u, builds = [(build_id b, b)]\<rparr>"
  by (simp add: add_build_def Job_def upsert_def)

lemma get_last_build_loop_non_numeric:
  assumes "(jn, j) \<in> set builds_jobs" and "k \<in> set (map fst (builds j))" and "py_int k = None"
  shows "get_last_build_loop builds_jobs job_object = Inl ValueError"
  using assms
proof (induction builds_jobs arbitrary: job_object)
  case Nil
  then show ?case by simp
next
  case (Cons p rest)
  obtain jn1 j1 where p: "p = (jn1, j1)" by (cases p)
  show ?case
  proof (cases "builds j1 = []")
    case True
    with Cons.prems p have "(jn, j) \<in> set rest" by auto
    from Cons.IH[OF this Cons.prems(2,3)] True p show ?thesis by simp
  next
    case False
    then have ne: "map fst (builds j1) \<noteq> []" by simp
    show ?thesis
    proof (cases "last_build_number (map fst (builds j1))")
      case (Inl e)
      from last_build_number_Inl[OF Inl ne] Inl False p show ?thesis by simp
    next
      case (Inr k1)
      note r = last_build_number_Inr[OF Inr]
      then have "(jn, j) \<noteq> (jn1, j1)" using Cons.prems(2,3) by auto
      with Cons.prems p have mem: "(jn, j) \<in> set rest" by auto
      from r have "k1 \<in> fst ` set (builds j1)" by simp
      then obtain b where b: "map_of (builds j1) k1 = Some b"
        by (metis domD dom_map_of_conv_image_fst)
      from Cons.IH[OF mem Cons.prems(2,3)] Inr b False p show ?thesis by simp
    qed
  qed
qed

lemma get_last_build_loop_numeric:
  assumes "distinct (map fst builds_jobs)"
    and "\<forall>(jn, j)\<in>set builds_jobs. \<forall>k\<in>set (map fst (builds j)). py_int k \<noteq> None"
  shows "\<exists>res. get_last_build_loop builds_jobs job_object = Inr res \<and>
     (\<forall>(jn, j)\<in>set builds_jobs.
        if builds j = [] then map_of res jn = map_of job_object jn
        else (\<exists>k b n. map_of (builds j) k = Some b \<and> py_int k = Some n \<and>
                (\<forall>k'\<in>set (map fst (builds j)). \<exists>n'. py_int k' = Some n' \<and> n' \<le> n) \<and>
                map_of res jn = Some \<lparr>name = jn, url = url j, builds = [(build_id b, b)]\<rparr>)) \<and>
     (\<forall>jn. jn \<notin> fst ` set builds_jobs \<longrightarrow> map_of res jn = map_of job_object jn)"
  using assms
proof (induction builds_jobs arbitrary: job_object)
  case Nil
  then show ?case by simp
next
  case (Cons p rest)
  obtain jn1 j1 where p: "p = (jn1, j1)" by (cases p)
  from Cons.prems p have d: "distinct (map fst rest)" and notin: "jn1 \<notin> fst ` set rest"
    and num: "\<forall>(jn, j)\<in>set rest. \<forall>k\<in>set (map fst (builds j)). py_int k \<noteq> None"
    and num1: "\<forall>k\<in>set (map fst (builds j1)). py_int k \<noteq> None"
    by auto
  show ?case
  proof (cases "builds j1 = []")
    case True
    from Cons.IH[OF d num, of job_object] obtain res where
      res: "get_last_build_loop rest job_object = Inr res"
        "\<forall>(jn, j)\<in>set rest.
          if builds j = [] then map_of res jn = map_of job_object jn
          else (\<exists>k b n. map_of (builds j) k = Some b \<and> py_int k = Some n \<and>
                (\<forall>k'\<in>set (map fst (builds j)). \<exists>n'. py_int k' = Some n' \<and> n' \<le> n) \<and>
                map_of res jn = Some \<lparr>name = jn, url = url j, builds = [(build_id b, b)]\<rparr>)"
        "\<forall>jn. jn \<notin> fst ` set rest \<longrightarrow> map_of res jn = map_of job_object jn"
      by blast
    from res(3) notin have "map_of res jn1 = map_of job_object jn1" by blast
    with res True p show ?thesis by auto
  next
    case False
    then have ne: "map fst (builds j1) \<noteq> []" by simp
    from last_build_number_numeric[OF ne num1] obtain k n where
      k: "last_build_number (map fst (builds j1)) = Inr k" "k \<in> set (map fst (builds j1))"
         "py_int k = Some n"
         "\<forall>k'\<in>set (map fst (builds j1)). \<exists>n'. py_int k' = Some n' \<and> n' \<le> n"
      by blast
    from k(2) have "k \<in> fst ` set (builds j1)" by simp
    then obtain b where b: "map_of (builds j1) k = Some b"
      by (metis domD dom_map_of_conv_image_fst)
    let ?acc = "AList.update jn1 (add_build b (Job jn1 (url j1))) job_object"
    from Cons.IH[OF d num, of ?acc] obtain res where
      res: "get_last_build_loop rest ?acc = Inr res"
        "\<forall>(jn, j)\<in>set rest.
          if builds j = [] then map_of res jn = map_of ?acc jn
          else (\<exists>k b n. map_of (builds j) k = Some b \<and> py_int k = Some n \<and>
                (\<forall>k'\<in>set (map fst (builds j)). \<exists>n'. py_int k' = Some n' \<and> n' \<le> n) \<and>
                map_of res jn = Some \<lparr>name = jn, url = url j, builds = [(build_id b, b)]\<rparr>)"
        "\<forall>jn. jn \<notin> fst ` set rest \<longrightarrow> map_of res jn = map_of ?acc jn"
      by blast
    have run: "get_last_build_loop (p # rest) job_object = Inr res"
      using p False k(1) b res(1) by simp
    have head: "map_of res jn1 = Some \<lparr>name = jn1, url = url j1, builds = [(build_id b, b)]\<rparr>"
      using res(3) notin by (simp add: update_conv' add_build_Job)
    have others: "\<forall>jn. jn \<noteq> jn1 \<longrightarrow> map_of ?acc jn = map_of job_object jn"
      by (simp add: update_conv')
    have tl: "\<forall>(jn, j)\<in>set rest.
          if builds j = [] then map_of res jn = map_of job_object jn
          else (\<exists>k b n. map_of (builds j) k = Some b \<and> py_int k = Some n \<and>
                (\<forall>k'\<in>set (map fst (builds j)). \<exists>n'. py_int k' = Some n' \<and> n' \<le> n) \<and>
                map_of res jn = Some \<lparr>name = jn, url = url j, builds = [(build_id b, b)]\<rparr>)"
    proof (clarify)
      fix jn j assume m: "(jn, j) \<in> set rest"
      then have "jn \<noteq> jn1" using notin by force
      with others have "map_of ?acc jn = map_of job_object jn" by blast
      with res(2) m show "if builds j = [] then map_of res jn = map_of job_object jn
          else (\<exists>k b n. map_of (builds j) k = Some b \<and> py_int k = Some n \<and>
                (\<forall>k'\<in>set (map fst (builds j)). \<exists>n'. py_int k' = Some n' \<and> n' \<le> n) \<and>
                map_of res jn = Some \<lparr>name = jn, url = url j, builds = [(build_id b, b)]\<rparr>)"
        by (smt (verit) case_prodD)
    qed
    have out: "\<forall>jn. jn \<notin> fst ` set (p # rest) \<longrightarrow> map_of res jn = map_of job_object jn"
      using res(3) others p by auto
    have hd: "if builds j1 = [] then map_of res jn1 = map_of job_object jn1
          else (\<exists>k b n. map_of (builds j1) k = Some b \<and> py_int k = Some n \<and>
                (\<forall>k'\<in>set (map fst (builds j1)). \<exists>n'. py_int k' = Some n' \<and> n' \<le> n) \<and>
                map_of res jn1 = Some \<lparr>name = jn1, url = url j1, builds = [(build_id b, b)]\<rparr>)"
      using b k(3,4) head by (simp only: False if_False) blast
    from run hd tl out p show ?thesis by auto
  qed
qed

text \<open>
  C4. When the keys of the builds are numbers, that is \<open>int\<close> raises on none of them,
  \<open>get_last_build\<close> returns, for every job that has builds, the job with one build: a
  build of the job whose key is, as an integer, at least the key of every build of the
  job. A job without builds is left out. For the builds with the keys 2, 10 and 3 it is
  the build 10.
\<close>

theorem get_last_build_greatest:
  "(distinct (map fst builds_jobs) \<and>
    (\<forall>(jn, j)\<in>set builds_jobs. \<forall>k\<in>set (map fst (builds j)). py_int k \<noteq> None) \<longrightarrow>
    (\<exists>res. get_last_build builds_jobs = Inr res \<and>
       (\<forall>(jn, j)\<in>set builds_jobs.
          if builds j = [] then map_of res jn = None
          else (\<exists>k b n. map_of (builds j) k = Some b \<and> py_int k = Some n \<and>
                  (\<forall>k'\<in>set (map fst (builds j)). \<exists>n'. py_int k' = Some n' \<and> n' \<le> n) \<and>
                  map_of res jn = Some \<lparr>name = jn, url = url j, builds = [(build_id b, b)]\<rparr>)) \<and>
       (\<forall>jn. jn \<notin> fst ` set builds_jobs \<longrightarrow> map_of res jn = None))) \<and>
   get_last_build three_builds =
     Inr [(''job1'', \<lparr>name = ''job1'', url = Some ''http://elastic/job1'',
                      builds = [(''10'', Build ''10'' (Some ''FAIL'') None)]\<rparr>)]"
proof -
  have ex: "get_last_build three_builds =
     Inr [(''job1'', \<lparr>name = ''job1'', url = Some ''http://elastic/job1'',
                      builds = [(''10'', Build ''10'' (Some ''FAIL'') None)]\<rparr>)]"
    by code_simp
  have gen: "\<exists>res. get_last_build builds_jobs = Inr res \<and>
       (\<forall>(jn, j)\<in>set builds_jobs.
          if builds j = [] then map_of res jn = None
          else (\<exists>k b n. map_of (builds j) k = Some b \<and> py_int k = Some n \<and>
                  (\<forall>k'\<in>set (map fst (builds j)). \<exists>n'. py_int k' = Some n' \<and> n' \<le> n) \<and>
                  map_of res jn = Some \<lparr>name = jn, url = url j, builds = [(build_id b, b)]\<rparr>)) \<and>
       (\<forall>jn. jn \<notin> fst ` set builds_jobs \<longrightarrow> map_of res jn = None)"
    if "distinct (map fst builds_jobs)"
      and "\<forall>(jn, j)\<in>set builds_jobs. \<forall>k\<in>set (map fst (builds j)). py_int k \<noteq> None"
    using get_last_build_loop_numeric[OF that, of "[]"]
    unfolding get_last_build_def map_of.simps(1) .
  from ex gen show ?thesis by blast
qed

theorem get_last_build_greatest_witness:
  "distinct (map fst three_builds) \<and>
   list_all (\<lambda>(jn, j). list_all (\<lambda>k. py_int k \<noteq> None) (map fst (builds j))) three_builds \<and>
   (\<exists>res. get_last_build three_builds = Inr res \<and>
      (\<exists>k b n. map_of [(''2'', Build ''2'' (Some ''SUCCESS'') None),
                        (''10'', Build ''10'' (Some ''FAIL'') None),
                        (''3'', Build ''3'' (Some ''SUCCESS'') None)] k = Some b \<and>
         py_int k = Some n \<and> 2 \<le> n \<and> 10 \<le> n \<and> 3 \<le> n \<and>
         map_of res ''job1'' =
           Some \<lparr>name = ''job1'', url = Some ''http://elastic/job1'',
                 builds = [(build_id b, b :: int build)]\<rparr>))"
proof -
  have h1: "distinct (map fst three_builds)" by code_simp
  have h2: "\<forall>(jn, j)\<in>set three_builds. \<forall>k\<in>set (map fst (builds j)). py_int k \<noteq> None"
    by code_simp
  have h3: "py_int ''2'' = Some 2 \<and> py_int ''10'' = Some 10 \<and> py_int ''3'' = Some 3"
    by code_simp
  from get_last_build_greatest[of three_builds] h1 h2 obtain res where
    r: "get_last_build three_builds = Inr res"
       "\<forall>(jn, j)\<in>set three_builds.
          if builds j = [] then map_of res jn = None
          else (\<exists>k b n. map_of (builds j) k = Some b \<and> py_int k = Some n \<and>
                  (\<forall>k'\<in>set (map fst (builds j)). \<exists>n'. py_int k' = Some n' \<and> n' \<le> n) \<and>
                  map_of res jn = Some \<lparr>name = jn, url = url j, builds = [(build_id b, b)]\<rparr>)"
    by blast
  from r(2) h3 have "\<exists>k b n. map_of [(''2'', Build ''2'' (Some ''SUCCESS'') None),
                        (''10'', Build ''10'' (Some ''FAIL'') None),
                        (''3'', Build ''3'' (Some ''SUCCESS'') None)] k = Some b \<and>
         py_int k = Some n \<and> 2 \<le> n \<and> 10 \<le> n \<and> 3 \<le> n \<and>
         map_of res ''job1'' =
           Some \<lparr>name = ''job1'', url = Some ''http://elastic/job1'',
                 builds = [(build_id b, b :: int build)]\<rparr>"
    by (simp add: three_builds_def)
  with r(1) h1 h2 show ?thesis unfolding list_all_iff by blast
qed

section \<open>A build whose key is not a number\<close>

lemma get_builds_last_build:
  "kw_last_build kw \<noteq> None \<Longrightarrow>
   get_builds L kw hits =
     (case get_builds L (kw\<lparr>kw_last_build := None\<rparr>) hits of
        Inl e \<Rightarrow> Inl e
      | Inr final_jobs \<Rightarrow> get_last_build final_jobs)"
  by (simp add: get_builds_def get_build_filters_def filter_jobs_def job_checks_def Let_def
      split: option.splits sum.splits)

lemma query_systems_raises:
  "G (sys_name system) (sources system) f = Inr (src, m) \<Longrightarrow> m kw = Inl e \<Longrightarrow>
   query_systems G P lv f kw (system # rest) log =
     (system # rest,
      log @ [\<lparr>call_level = lv, call_func = f, call_system = sys_name system,
               call_source = src_name src\<rparr>],
      Some e)"
  by (simp add: Let_def)

lemma run_query_loop_raises:
  assumes "start_level \<le> level arg" and "last_level st \<le> level arg"
    and "func arg = Some f" and "f \<noteq> []"
    and "snd (snd (query_environments G P (level arg) f kw (environments st) (calls st))) = Some e"
  shows "snd (run_query_loop G P start_level kw (arg # args) st) = Some e"
proof -
  obtain es log where
    "query_environments G P (level arg) f kw (environments st) (calls st) = (es, log, Some e)"
    using assms(5)
    by (cases "query_environments G P (level arg) f kw (environments st) (calls st)") auto
  with assms(1-4) show ?thesis by (simp add: run_query_step_def)
qed

lemma get_tests_last_build:
  assumes "kw_last_build kw \<noteq> None"
  shows "get_tests L kw hits =
     (case get_tests L
             (kw\<lparr>kw_last_build := None,
                 kw_builds := Some (case kw_builds kw of None \<Rightarrow> [] | Some v \<Rightarrow> v)\<rparr>) hits of
        Inl e \<Rightarrow> Inl e
      | Inr final_jobs \<Rightarrow> get_last_build final_jobs)"
proof -
  let ?kw = "kw\<lparr>kw_last_build := None,
      kw_builds := Some (case kw_builds kw of None \<Rightarrow> [] | Some v \<Rightarrow> v)\<rparr>"
  have f: "get_build_filters ?kw = get_build_filters kw"
    by (simp add: get_build_filters_def split: option.splits)
  have j: "filter_jobs L ?kw hs = filter_jobs L kw hs" for hs :: "elk_build list"
    by (simp add: filter_jobs_def job_checks_def cong: sum.case_cong option.case_cong)
  have c: "check_builds_for_test ?kw = Inr ()" "check_builds_for_test kw = Inr ()"
    using assms by (simp_all add: check_builds_for_test_def)
  show ?thesis
    unfolding get_tests_def c f j using assms
    by (simp add: Let_def split: option.splits sum.splits)
qed

text \<open>
  C5, as amended. When a build of one of the jobs has a key that is not a number,
  \<open>get_last_build\<close> raises \<open>ValueError\<close> and returns no job. Nothing catches the exception:
  \<open>get_builds\<close> and \<open>get_tests\<close> with the argument \<open>last_build\<close> end with what
  \<open>get_last_build\<close> raises on the jobs they have found (the jobs they return without
  \<open>last_build\<close>; for \<open>get_tests\<close>, \<open>builds\<close> then being given, empty if it was not, as
  \<open>get_tests\<close> asks for one of the two), a source method that raises ends the loop over
  the systems with the systems that follow neither queried nor populated, and the
  exception leaves \<open>run_query\<close>.
\<close>

theorem get_last_build_non_numeric:
  "((jn, j) \<in> set builds_jobs \<and> k \<in> set (map fst (builds j)) \<and> py_int k = None \<longrightarrow>
      get_last_build builds_jobs = Inl ValueError) \<and>
   (kw_last_build kw \<noteq> None \<longrightarrow>
      get_builds L kw hits =
        (case get_builds L (kw\<lparr>kw_last_build := None\<rparr>) hits of
           Inl e \<Rightarrow> Inl e
         | Inr final_jobs \<Rightarrow> get_last_build final_jobs)) \<and>
   (kw_last_build kw \<noteq> None \<longrightarrow>
      get_tests L kw hits =
        (case get_tests L
                (kw\<lparr>kw_last_build := None,
                    kw_builds := Some (case kw_builds kw of None \<Rightarrow> [] | Some v \<Rightarrow> v)\<rparr>) hits of
           Inl e \<Rightarrow> Inl e
         | Inr final_jobs \<Rightarrow> get_last_build final_jobs)) \<and>
   (G (sys_name system) (sources system) f = Inr (src, m) \<and> m kwargs = Inl e \<longrightarrow>
      query_systems G P lv f kwargs (system # rest) log =
        (system # rest,
         log @ [\<lparr>call_level = lv, call_func = f, call_system = sys_name system,
                  call_source = src_name src\<rparr>],
         Some e)) \<and>
   (start_level \<le> level arg \<and> last_level st \<le> level arg \<and> func arg = Some f \<and> f \<noteq> [] \<and>
    snd (snd (query_environments G P (level arg) f kwargs (environments st) (calls st))) = Some e
    \<longrightarrow> snd (run_query_loop G P start_level kwargs (arg # args) st) = Some e)"
  using get_last_build_loop_non_numeric[of jn j builds_jobs k "[]"]
    get_builds_last_build[of kw L hits]
    get_tests_last_build[of kw L hits]
    query_systems_raises[of G system f src m kwargs e P lv rest log]
    run_query_loop_raises[of start_level arg st f G P kwargs e args]
  unfolding get_last_build_def by blast

theorem get_last_build_non_numeric_witness:
  "(''job1'', \<lparr>name = ''job1'', url = None,
      builds = [(''2'', Build ''2'' None None), (''1a'', Build ''1a'' None None)]\<rparr>)
     \<in> set bad_builds \<and>
   ''1a'' \<in> set (map fst (builds \<lparr>name = ''job1'', url = None,
      builds = [(''2'', Build ''2'' None None), (''1a'', Build ''1a'' (None :: string option) None)]\<rparr>)) \<and>
   py_int ''1a'' = None \<and>
   get_last_build bad_builds = Inl ValueError \<and>
   kw_last_build (no_kwargs\<lparr>kw_last_build := Some []\<rparr>) \<noteq> None \<and>
   get_builds example_lib (no_kwargs\<lparr>kw_last_build := Some []\<rparr>) (Some bad_hits) =
     (Inl ValueError :: error + (string \<times> int job) list) \<and>
   get_tests example_lib (no_kwargs\<lparr>kw_last_build := Some []\<rparr>) (Some bad_hits) =
     (Inl ValueError :: error + (string \<times> int job) list) \<and>
   get_source_method (sys_name gateB) (sources gateB) ''get_builds'' =
     Inr (elasticsearch (no_kwargs\<lparr>kw_last_build := Some []\<rparr>) bad_hits,
          \<lambda>kwargs. get_builds example_lib (no_kwargs\<lparr>kw_last_build := Some []\<rparr>)
                     (Some bad_hits)) \<and>
   query_systems get_source_method no_methods 2 ''get_builds'' [] [gateB, gateC] [] =
     ([gateB, gateC],
      [\<lparr>call_level = 2, call_func = ''get_builds'', call_system = ''gateB'',
        call_source = ''elasticsearch''\<rparr>],
      Some ValueError) \<and>
   (1 :: int) \<le> level \<lparr>level = 2, func = Some ''get_builds'', arg_value = ([] :: string list)\<rparr> \<and>
   snd (snd (query_environments get_source_method no_methods 2 ''get_builds'' []
      [\<lparr>env_name = ''prod'', systems = [gateB, gateC]\<rparr>] [])) = Some ValueError \<and>
   snd (run_query_loop get_source_method no_methods 1 []
      [\<lparr>level = 2, func = Some ''get_builds'', arg_value = []\<rparr>]
      \<lparr>last_level = - 1, environments = [\<lparr>env_name = ''prod'', systems = [gateB, gateC]\<rparr>],
        calls = []\<rparr>) = Some ValueError"
proof -
  have h1: "(''job1'', \<lparr>name = ''job1'', url = None,
      builds = [(''2'', Build ''2'' None None), (''1a'', Build ''1a'' None None)]\<rparr>)
     \<in> set bad_builds"
    by (simp add: bad_builds_def)
  have h2: "''1a'' \<in> set (map fst (builds \<lparr>name = ''job1'', url = None,
      builds = [(''2'', Build ''2'' None None), (''1a'', Build ''1a'' (None :: string option) None)]\<rparr>))"
    by simp
  have h3: "py_int ''1a'' = None" by code_simp
  have h4: "kw_last_build (no_kwargs\<lparr>kw_last_build := Some []\<rparr>) \<noteq> None" by simp
  have h5: "get_builds example_lib (no_kwargs\<lparr>kw_last_build := None\<rparr>) (Some bad_hits) =
     Inr [(''test'', \<lparr>name = ''test'', url = Some ''http://domain.tld/test/'',
             builds = [(''1a'', Build ''1a'' (Some ''SUCCESS'') None)]\<rparr>)]"
    by code_simp
  have h6: "get_last_build [(''test'', \<lparr>name = ''test'', url = Some ''http://domain.tld/test/'',
             builds = [(''1a'', Build ''1a'' (Some ''SUCCESS'') None :: int build)]\<rparr>)]
     = Inl ValueError"
    by code_simp
  have h7: "get_tests example_lib
      (no_kwargs\<lparr>kw_last_build := None, kw_builds := Some []\<rparr>) (Some bad_hits) =
     Inr [(''test'', \<lparr>name = ''test'', url = Some ''http://domain.tld/test/'',
             builds = [(''1a'', Build ''1a'' (Some ''SUCCESS'') None)]\<rparr>)]"
    by code_simp
  note t = get_last_build_non_numeric[of "''job1''"
      "\<lparr>name = ''job1'', url = None,
        builds = [(''2'', Build ''2'' None None), (''1a'', Build ''1a'' None None)]\<rparr>"
      bad_builds "''1a''" "no_kwargs\<lparr>kw_last_build := Some []\<rparr>" example_lib "Some bad_hits"]
  from t h1 h2 h3 have a: "get_last_build bad_builds = Inl ValueError" by blast
  from t h4 have "get_builds example_lib (no_kwargs\<lparr>kw_last_build := Some []\<rparr>) (Some bad_hits) =
        (case get_builds example_lib (no_kwargs\<lparr>kw_last_build := Some [], kw_last_build := None\<rparr>)
                (Some bad_hits) of
           Inl e \<Rightarrow> Inl e
         | Inr final_jobs \<Rightarrow> (get_last_build final_jobs :: error + (string \<times> int job) list))"
    by blast
  with h5 h6 have b: "get_builds example_lib (no_kwargs\<lparr>kw_last_build := Some []\<rparr>) (Some bad_hits) =
     (Inl ValueError :: error + (string \<times> int job) list)"
    by simp
  from t h4 have "get_tests example_lib (no_kwargs\<lparr>kw_last_build := Some []\<rparr>) (Some bad_hits) =
        (case get_tests example_lib
                ((no_kwargs\<lparr>kw_last_build := Some []\<rparr>)
                 \<lparr>kw_last_build := None,
                  kw_builds := Some (case kw_builds (no_kwargs\<lparr>kw_last_build := Some []\<rparr>) of
                                       None \<Rightarrow> [] | Some v \<Rightarrow> v)\<rparr>)
                (Some bad_hits) of
           Inl e \<Rightarrow> Inl e
         | Inr final_jobs \<Rightarrow> (get_last_build final_jobs :: error + (string \<times> int job) list))"
    by blast
  moreover have "(no_kwargs\<lparr>kw_last_build := Some []\<rparr>)
                 \<lparr>kw_last_build := None,
                  kw_builds := Some (case kw_builds (no_kwargs\<lparr>kw_last_build := Some []\<rparr>) of
                                       None \<Rightarrow> [] | Some v \<Rightarrow> v)\<rparr> =
              no_kwargs\<lparr>kw_last_build := None, kw_builds := Some []\<rparr>"
    by (simp add: no_kwargs_def)
  ultimately have b': "get_tests example_lib (no_kwargs\<lparr>kw_last_build := Some []\<rparr>)
      (Some bad_hits) = (Inl ValueError :: error + (string \<times> int job) list)"
    using h7 h6 by simp
  have g1: "get_source_method (sys_name gateB) (sources gateB) ''get_builds'' =
     Inr (elasticsearch (no_kwargs\<lparr>kw_last_build := Some []\<rparr>) bad_hits,
          \<lambda>kwargs. get_builds example_lib (no_kwargs\<lparr>kw_last_build := Some []\<rparr>)
                     (Some bad_hits))"
    by (simp add: get_source_method_def candidates_def gateB_def elasticsearch_def)
  have g4: "src_name (elasticsearch (no_kwargs\<lparr>kw_last_build := Some []\<rparr>) bad_hits) =
     ''elasticsearch'' \<and> sys_name gateB = ''gateB''"
    by (simp add: elasticsearch_def gateB_def)
  have g5: "snd (snd (query_environments get_source_method no_methods 2 ''get_builds'' []
      [\<lparr>env_name = ''prod'', systems = [gateB, gateC]\<rparr>] [])) = Some ValueError"
    by code_simp
  note u = get_last_build_non_numeric[of "''job1''"
      "\<lparr>name = ''job1'', url = None,
        builds = [(''2'', Build ''2'' None None), (''1a'', Build ''1a'' None None)]\<rparr>"
      bad_builds "''1a''" "no_kwargs\<lparr>kw_last_build := Some []\<rparr>" example_lib "Some bad_hits"
      get_source_method gateB "''get_builds''"
      "elasticsearch (no_kwargs\<lparr>kw_last_build := Some []\<rparr>) bad_hits"
      "\<lambda>kwargs. get_builds example_lib (no_kwargs\<lparr>kw_last_build := Some []\<rparr>) (Some bad_hits)"
      "[]" ValueError no_methods 2 "[gateC]" "[]" 1
      "\<lparr>level = 2, func = Some ''get_builds'', arg_value = []\<rparr>"
      "\<lparr>last_level = - 1, environments = [\<lparr>env_name = ''prod'', systems = [gateB, gateC]\<rparr>],
        calls = []\<rparr>" "[]"]
  from u[THEN conjunct2, THEN conjunct2, THEN conjunct2, THEN conjunct1] g1 b g4
  have c: "query_systems get_source_method no_methods 2 ''get_builds'' []
      [gateB, gateC] [] =
     ([gateB, gateC],
      [\<lparr>call_level = 2, call_func = ''get_builds'', call_system = ''gateB'',
        call_source = ''elasticsearch''\<rparr>],
      Some ValueError)"
    by simp
  from u[THEN conjunct2, THEN conjunct2, THEN conjunct2, THEN conjunct2] g5
  have d: "snd (run_query_loop get_source_method no_methods 1 []
      [\<lparr>level = 2, func = Some ''get_builds'', arg_value = []\<rparr>]
      \<lparr>last_level = - 1, environments = [\<lparr>env_name = ''prod'', systems = [gateB, gateC]\<rparr>],
        calls = []\<rparr>) = Some ValueError"
    by simp
  from h1 h2 h3 h4 a b b' g1 g5 c d show ?thesis by simp
qed

text \<open>
  C5 as stated fails: the exception is not confined to the system, and nothing logs it or
  skips the system. With the key \<open>1a\<close>, \<open>get_last_build\<close>, \<open>get_builds\<close> and \<open>get_tests\<close>
  raise \<open>ValueError\<close>; so they do with the key made of the separator 28 and the digit 5,
  on which \<open>int\<close> raises. In a query for the last builds over the systems \<open>gateB\<close>, whose
  source finds the build \<open>1a\<close>, and \<open>gateC\<close>, whose source finds builds with numbers,
  \<open>run_query\<close> ends with \<open>ValueError\<close> after the one call for \<open>gateB\<close>: \<open>gateC\<close> is not
  queried, though it is, and without an exception, when \<open>gateB\<close> is not there.
\<close>

theorem get_last_build_non_numeric_counterexample:
  "get_last_build bad_builds = Inl ValueError \<and>
   get_builds example_lib (no_kwargs\<lparr>kw_last_build := Some []\<rparr>) (Some bad_hits) =
     (Inl ValueError :: error + (string \<times> int job) list) \<and>
   get_tests example_lib (no_kwargs\<lparr>kw_last_build := Some []\<rparr>) (Some bad_hits) =
     (Inl ValueError :: error + (string \<times> int job) list) \<and>
   py_int [CHR 0x1C, CHR ''5''] = None \<and>
   get_last_build
     [(''job1'', \<lparr>name = ''job1'', url = None,
         builds = [([CHR 0x1C, CHR ''5''], Build [CHR 0x1C, CHR ''5''] None None)]\<rparr>)] =
     (Inl ValueError :: error + (string \<times> int job) list) \<and>
   snd (run_query get_source_method no_methods 1
      [(''last_build'', \<lparr>level = 2, func = Some ''get_builds'', arg_value = []\<rparr>)]
      [\<lparr>env_name = ''prod'', systems = [gateB, gateC]\<rparr>]) = Some ValueError \<and>
   map call_system (calls (fst (run_query get_source_method no_methods 1
      [(''last_build'', \<lparr>level = 2, func = Some ''get_builds'', arg_value = []\<rparr>)]
      [\<lparr>env_name = ''prod'', systems = [gateB, gateC]\<rparr>]))) = [''gateB''] \<and>
   snd (run_query get_source_method no_methods 1
      [(''last_build'', \<lparr>level = 2, func = Some ''get_builds'', arg_value = []\<rparr>)]
      [\<lparr>env_name = ''prod'', systems = [gateC]\<rparr>]) = None \<and>
   map call_system (calls (fst (run_query get_source_method no_methods 1
      [(''last_build'', \<lparr>level = 2, func = Some ''get_builds'', arg_value = []\<rparr>)]
      [\<lparr>env_name = ''prod'', systems = [gateC]\<rparr>]))) = [''gateC'']"
  by code_simp

section \<open>The filters\<close>

lemma apply_filters_conj:
  "apply_filters records stages = filter (\<lambda>r. \<forall>stage\<in>set stages. stage r) records"
  unfolding apply_filters_def
proof (induction stages arbitrary: records)
  case Nil
  then show ?case by simp
next
  case (Cons c cs)
  have "(\<lambda>r. (\<forall>stage\<in>set cs. stage r) \<and> c r) = (\<lambda>r. c r \<and> (\<forall>stage\<in>set cs. stage r))"
    by auto
  with Cons show ?case by simp
qed

lemma filter_jobs_checks:
  "job_checks L kw = Inr checks \<Longrightarrow>
   filter_jobs L kw jobs_found = Inr (filter (\<lambda>j. \<forall>c\<in>set checks. c j) jobs_found)"
  by (simp add: filter_jobs_def apply_filters_conj)

lemma filter_jobs_no_filter:
  assumes "kw_jobs kw = None \<or> kw_jobs kw = Some []"
    and "kw_jobs_scope kw = None \<or> kw_jobs_scope kw = Some []"
    and "kw_spec kw = None \<or> kw_spec kw = Some []"
  shows "filter_jobs L kw jobs_found = Inr jobs_found"
  using assms by (auto simp: filter_jobs_def job_checks_def apply_filters_def)

text \<open>
  C7. The output of the chain of filters is the list of the records for which every stage
  returns true, in the order of the input: a record is in the output if and only if it is
  a record of the input and every stage holds of it; with no stage the output is the
  input. \<open>filter_jobs\<close> returns the jobs that pass all the checks it has collected, and all
  the jobs when the user gave none of its arguments; \<open>filter_builds\<close> returns the builds
  that pass all the checks it is given, each with its number made a string.
\<close>

theorem filters_conjunctive:
  "apply_filters records stages = filter (\<lambda>r. \<forall>stage\<in>set stages. stage r) records \<and>
   (r \<in> set (apply_filters records stages) \<longleftrightarrow>
      r \<in> set records \<and> (\<forall>stage\<in>set stages. stage r)) \<and>
   apply_filters records [] = records \<and>
   (job_checks L kw = Inr checks \<longrightarrow>
      filter_jobs L kw jobs_found = Inr (filter (\<lambda>j. \<forall>c\<in>set checks. c j) jobs_found)) \<and>
   ((kw_jobs kw = None \<or> kw_jobs kw = Some []) \<and>
    (kw_jobs_scope kw = None \<or> kw_jobs_scope kw = Some []) \<and>
    (kw_spec kw = None \<or> kw_spec kw = Some []) \<longrightarrow>
      filter_jobs L kw jobs_found = Inr jobs_found) \<and>
   filter_builds builds_found checks_to_apply =
     filter (\<lambda>b. \<forall>c\<in>set checks_to_apply. c b)
       (map (\<lambda>build. build\<lparr>build_num := Str (py_str (build_num build))\<rparr>) builds_found) \<and>
   filter_builds builds_found [] =
     map (\<lambda>build. build\<lparr>build_num := Str (py_str (build_num build))\<rparr>) builds_found"
  using filter_jobs_checks[of L kw checks jobs_found] filter_jobs_no_filter[of kw L jobs_found]
  by (simp add: apply_filters_conj filter_builds_def)

theorem filters_conjunctive_witness:
  "job_checks example_lib (no_kwargs\<lparr>kw_spec := Some [''test2'']\<rparr>) =
     Inr [\<lambda>j :: elk_build. satisfy_exact_match [''test2''] (job_name j)] \<and>
   filter_jobs example_lib (no_kwargs\<lparr>kw_spec := Some [''test2'']\<rparr>) build_hits =
     Inr [\<lparr>job_name = ''test2'', job_url = ''http://domain.tld/test2/'', build_num = Str ''2'',
           build_result = Some ''FAIL'', build_duration = Some 10, test_results = []\<rparr>] \<and>
   kw_jobs no_kwargs = None \<and> kw_jobs_scope no_kwargs = None \<and> kw_spec no_kwargs = None \<and>
   filter_jobs example_lib no_kwargs build_hits = Inr build_hits \<and>
   map job_name
     (apply_filters build_hits
        [\<lambda>b. satisfy_case_insensitive_match [''fail''] (build_result b),
         \<lambda>b. satisfy_exact_match [''1'', ''2''] (py_str (build_num b))]) = [''test2'']"
proof -
  have h1: "job_checks example_lib (no_kwargs\<lparr>kw_spec := Some [''test2'']\<rparr>) =
     Inr [\<lambda>j :: elk_build. satisfy_exact_match [''test2''] (job_name j)]"
    by (simp add: job_checks_def no_kwargs_def)
  have h2: "kw_jobs no_kwargs = None \<and> kw_jobs_scope no_kwargs = None \<and> kw_spec no_kwargs = None"
    by (simp add: no_kwargs_def)
  have h3: "filter (\<lambda>j. \<forall>c\<in>set [\<lambda>j :: elk_build. satisfy_exact_match [''test2''] (job_name j)]. c j)
       build_hits =
     [\<lparr>job_name = ''test2'', job_url = ''http://domain.tld/test2/'', build_num = Str ''2'',
           build_result = Some ''FAIL'', build_duration = Some 10, test_results = []\<rparr>]"
    by (simp add: build_hits_def satisfy_exact_match_def)
  have h4: "map job_name (filter (\<lambda>r. \<forall>stage\<in>set
        [\<lambda>b. satisfy_case_insensitive_match [''fail''] (build_result b),
         \<lambda>b. satisfy_exact_match [''1'', ''2''] (py_str (build_num b))]. stage r) build_hits)
      = [''test2'']"
    by code_simp
  note t1 = filters_conjunctive[of build_hits
        "[\<lambda>b. satisfy_case_insensitive_match [''fail''] (build_result b),
          \<lambda>b. satisfy_exact_match [''1'', ''2''] (py_str (build_num b))]"
        "hd build_hits" example_lib "no_kwargs\<lparr>kw_spec := Some [''test2'']\<rparr>"
        "[\<lambda>j :: elk_build. satisfy_exact_match [''test2''] (job_name j)]" build_hits
        build_hits "[]"]
  note t2 = filters_conjunctive[of build_hits "[]" "hd build_hits" example_lib no_kwargs "[]"
        build_hits build_hits "[]"]
  from t1 h1 h3 have a: "filter_jobs example_lib (no_kwargs\<lparr>kw_spec := Some [''test2'']\<rparr>) build_hits =
     Inr [\<lparr>job_name = ''test2'', job_url = ''http://domain.tld/test2/'', build_num = Str ''2'',
           build_result = Some ''FAIL'', build_duration = Some 10, test_results = []\<rparr>]"
    by simp
  from t2 h2 have b: "filter_jobs example_lib no_kwargs build_hits = Inr build_hits"
    by blast
  from t1 h4 have c: "map job_name
     (apply_filters build_hits
        [\<lambda>b. satisfy_case_insensitive_match [''fail''] (build_result b),
         \<lambda>b. satisfy_exact_match [''1'', ''2''] (py_str (build_num b))]) = [''test2'']"
    by simp
  from h1 h2 a b c show ?thesis by blast
qed

section \<open>Builds by their status\<close>

lemma satisfy_case_insensitive_match_iff:
  "satisfy_case_insensitive_match v field \<longleftrightarrow>
     (\<exists>r. field = Some r \<and> (\<exists>s\<in>set v. py_lower r = py_lower s))"
  by (auto simp: satisfy_case_insensitive_match_def split: option.splits)

lemma get_build_filters_status:
  assumes "kw_build_status kw = Some v" and "v \<noteq> []"
  shows "get_build_filters kw =
           get_build_filters (kw\<lparr>kw_build_status := None\<rparr>) @
           [\<lambda>b. satisfy_case_insensitive_match v (build_result b)]"
  using assms by (simp add: get_build_filters_def)

lemma filter_builds_status:
  assumes "kw_build_status kw = Some v" and "v \<noteq> []"
  shows "filter_builds builds_found (get_build_filters kw) =
           filter (\<lambda>b. \<exists>r. build_result b = Some r \<and> (\<exists>s\<in>set v. py_lower r = py_lower s))
             (filter_builds builds_found (get_build_filters (kw\<lparr>kw_build_status := None\<rparr>)))"
proof -
  have "(\<lambda>b. (\<forall>c\<in>set (get_build_filters (kw\<lparr>kw_build_status := None\<rparr>)). c b) \<and>
             satisfy_case_insensitive_match v (build_result b)) =
        (\<lambda>b. satisfy_case_insensitive_match v (build_result b) \<and>
             (\<forall>c\<in>set (get_build_filters (kw\<lparr>kw_build_status := None\<rparr>)). c b))"
    by auto
  then show ?thesis
    by (simp add: get_build_filters_status[OF assms] filter_builds_def apply_filters_conj
        ball_Un satisfy_case_insensitive_match_iff)
qed

lemma map_of_upsert:
  "map_of (upsert m k v d) =
     (map_of d)(k \<mapsto> (case map_of d k of None \<Rightarrow> v | Some old \<Rightarrow> m old v))"
  by (simp add: upsert_def update_conv')

lemma distinct_upsert: "distinct (map fst d) \<Longrightarrow> distinct (map fst (upsert m k v d))"
  by (simp add: upsert_def distinct_update)

lemma merge_build_Build:
  "merge_build old (Build i st d) =
     old\<lparr>status := merge_field (status old) st, duration := merge_field (duration old) d\<rparr>"
  by (simp add: merge_build_def Build_def)

lemma map_of_found_build:
  "map_of (found_build h J) =
     (map_of J)(job_name h \<mapsto>
        add_build (Build (py_str (build_num h)) (build_result h) (build_duration h))
          (case map_of J (job_name h) of
             None \<Rightarrow> Job (job_name h) (Some (job_url h))
           | Some j \<Rightarrow> j))"
  by (simp add: found_build_def Let_def update_conv')

lemma distinct_found_build:
  "distinct (map fst J) \<Longrightarrow> distinct (map fst (found_build h J))"
  by (simp add: found_build_def Let_def distinct_update)

lemma builds_add_build:
  "map_of (builds (add_build (Build i st d) j)) =
     (map_of (builds j))(i \<mapsto>
        (case map_of (builds j) i of
           None \<Rightarrow> Build i st d
         | Some old \<Rightarrow> old\<lparr>status := merge_field (status old) st,
                             duration := merge_field (duration old) d\<rparr>))"
proof (cases "map_of (builds j) i")
  case None
  then show ?thesis by (simp add: add_build_def map_of_upsert Build_def)
next
  case (Some old)
  then show ?thesis
    using merge_build_Build[of old i st d]
    by (simp add: add_build_def map_of_upsert Build_def)
qed

lemma builds_add_build_nonempty: "builds (add_build b j) \<noteq> []"
  by (simp add: add_build_def upsert_def)

text \<open>The jobs found after the hits \<open>hs\<close>.\<close>

lemma found_build_step:
  assumes nonempty: "\<forall>jn j. map_of J jn = Some j \<longrightarrow> builds j \<noteq> []"
    and from_hit: "\<forall>jn j i b. map_of J jn = Some j \<and> map_of (builds j) i = Some b \<longrightarrow>
        (\<exists>h\<in>set hs. job_name h = jn \<and> py_str (build_num h) = i \<and> status b = build_result h)"
    and all_hits: "\<forall>h\<in>set hs. \<exists>j b. map_of J (job_name h) = Some j \<and>
        map_of (builds j) (py_str (build_num h)) = Some b"
  shows "(\<forall>jn j. map_of (found_build x J) jn = Some j \<longrightarrow> builds j \<noteq> []) \<and>
    (\<forall>jn j i b. map_of (found_build x J) jn = Some j \<and> map_of (builds j) i = Some b \<longrightarrow>
        (\<exists>h\<in>set (hs @ [x]). job_name h = jn \<and> py_str (build_num h) = i \<and>
           status b = build_result h)) \<and>
    (\<forall>h\<in>set (hs @ [x]). \<exists>j b. map_of (found_build x J) (job_name h) = Some j \<and>
        map_of (builds j) (py_str (build_num h)) = Some b)"
proof -
  let ?jn = "job_name x" and ?i = "py_str (build_num x)"
  let ?old = "case map_of J ?jn of None \<Rightarrow> Job ?jn (Some (job_url x)) | Some j \<Rightarrow> j"
  let ?new = "add_build (Build ?i (build_result x) (build_duration x)) ?old"
  have m: "map_of (found_build x J) = (map_of J)(?jn \<mapsto> ?new)"
    by (rule map_of_found_build)
  have bn: "map_of (builds ?new) =
     (map_of (builds ?old))(?i \<mapsto>
        (case map_of (builds ?old) ?i of
           None \<Rightarrow> Build ?i (build_result x) (build_duration x)
         | Some old \<Rightarrow> old\<lparr>status := merge_field (status old) (build_result x),
                             duration := merge_field (duration old) (build_duration x)\<rparr>))"
    by (rule builds_add_build)
  have old_from: "\<exists>h\<in>set hs. job_name h = ?jn \<and> py_str (build_num h) = i \<and>
      status b = build_result h"
    if "map_of (builds ?old) i = Some b" for i b
  proof (cases "map_of J ?jn")
    case None
    with that show ?thesis by (simp add: Job_def)
  next
    case (Some j)
    with that from_hit show ?thesis by auto
  qed
  have a: "\<forall>jn j. map_of (found_build x J) jn = Some j \<longrightarrow> builds j \<noteq> []"
    using nonempty builds_add_build_nonempty by (auto simp: m)
  have b: "\<exists>h\<in>set (hs @ [x]). job_name h = jn \<and> py_str (build_num h) = i \<and>
           status b = build_result h"
    if j: "map_of (found_build x J) jn = Some j" and bb: "map_of (builds j) i = Some b"
    for jn j i b
  proof (cases "jn = ?jn")
    case False
    with j have "map_of J jn = Some j" by (simp add: m)
    with bb from_hit show ?thesis by auto
  next
    case True
    with j have jnew: "j = ?new" by (simp add: m)
    show ?thesis
    proof (cases "i = ?i")
      case False
      with bb jnew have "map_of (builds ?old) i = Some b" by (simp add: bn)
      from old_from[OF this] True show ?thesis by auto
    next
      case i: True
      show ?thesis
      proof (cases "map_of (builds ?old) ?i")
        case None
        with bb jnew i have "b = Build ?i (build_result x) (build_duration x)"
          by (simp add: bn)
        then have "status b = build_result x" by (simp add: Build_def)
        with True i show ?thesis by auto
      next
        case (Some old)
        with bb jnew i have bs: "status b = merge_field (status old) (build_result x)"
          by (auto simp: bn)
        from old_from[OF Some] obtain h where
          h: "h \<in> set hs" "job_name h = ?jn" "py_str (build_num h) = ?i"
             "status old = build_result h" by blast
        show ?thesis
        proof (cases "build_result x")
          case None
          with bs h have "status b = build_result h" by (simp add: merge_field_def)
          with h True i show ?thesis by auto
        next
          case (Some r)
          with bs have "status b = build_result x" by (simp add: merge_field_def)
          with True i show ?thesis by auto
        qed
      qed
    qed
  qed
  have c: "\<exists>j b. map_of (found_build x J) (job_name h) = Some j \<and>
        map_of (builds j) (py_str (build_num h)) = Some b"
    if "h \<in> set (hs @ [x])" for h
  proof (cases "job_name h = ?jn")
    case False
    with that have "h \<in> set hs" by auto
    with all_hits False show ?thesis by (simp add: m)
  next
    case True
    have here: "map_of (found_build x J) (job_name h) = Some ?new" using True by (simp add: m)
    show ?thesis
    proof (cases "py_str (build_num h) = ?i")
      case True
      then have "\<exists>b. map_of (builds ?new) (py_str (build_num h)) = Some b"
        by (simp add: bn)
      with here show ?thesis by blast
    next
      case False
      with that True have hs: "h \<in> set hs" by auto
      with all_hits obtain j b where
        jb: "map_of J (job_name h) = Some j" "map_of (builds j) (py_str (build_num h)) = Some b"
        by blast
      with True have "map_of (builds ?old) (py_str (build_num h)) = Some b" by simp
      with False have "map_of (builds ?new) (py_str (build_num h)) = Some b"
        by (simp add: bn)
      with here show ?thesis by blast
    qed
  qed
  from a b c show ?thesis by blast
qed

lemma fold_found_build:
  assumes "\<forall>jn j. map_of J jn = Some j \<longrightarrow> builds j \<noteq> []"
    and "\<forall>jn j i b. map_of J jn = Some j \<and> map_of (builds j) i = Some b \<longrightarrow>
        (\<exists>h\<in>set ps. job_name h = jn \<and> py_str (build_num h) = i \<and> status b = build_result h)"
    and "\<forall>h\<in>set ps. \<exists>j b. map_of J (job_name h) = Some j \<and>
        map_of (builds j) (py_str (build_num h)) = Some b"
  shows "(\<forall>jn j. map_of (fold found_build hs J) jn = Some j \<longrightarrow> builds j \<noteq> []) \<and>
    (\<forall>jn j i b. map_of (fold found_build hs J) jn = Some j \<and> map_of (builds j) i = Some b \<longrightarrow>
        (\<exists>h\<in>set (ps @ hs). job_name h = jn \<and> py_str (build_num h) = i \<and>
           status b = build_result h)) \<and>
    (\<forall>h\<in>set (ps @ hs). \<exists>j b. map_of (fold found_build hs J) (job_name h) = Some j \<and>
        map_of (builds j) (py_str (build_num h)) = Some b)"
  using assms
proof (induction hs arbitrary: J ps)
  case Nil
  then show ?case by simp
next
  case (Cons x hs)
  from found_build_step[OF Cons.prems, of x] have
    s: "\<forall>jn j. map_of (found_build x J) jn = Some j \<longrightarrow> builds j \<noteq> []"
       "\<forall>jn j i b. map_of (found_build x J) jn = Some j \<and> map_of (builds j) i = Some b \<longrightarrow>
        (\<exists>h\<in>set (ps @ [x]). job_name h = jn \<and> py_str (build_num h) = i \<and>
           status b = build_result h)"
       "\<forall>h\<in>set (ps @ [x]). \<exists>j b. map_of (found_build x J) (job_name h) = Some j \<and>
        map_of (builds j) (py_str (build_num h)) = Some b"
    by blast+
  have e1: "fold found_build (x # hs) J = fold found_build hs (found_build x J)" by simp
  have e2: "(ps @ [x]) @ hs = ps @ x # hs" by simp
  from Cons.IH[OF s] show ?case unfolding e1 e2 .
qed

lemma found_builds:
  "(\<forall>jn j. map_of (fold found_build hs ([] :: (string \<times> 'f job) list)) jn = Some j \<longrightarrow>
       builds j \<noteq> []) \<and>
   (\<forall>jn j i b. map_of (fold found_build hs ([] :: (string \<times> 'f job) list)) jn = Some j \<and>
       map_of (builds j) i = Some b \<longrightarrow>
       (\<exists>h\<in>set hs. job_name h = jn \<and> py_str (build_num h) = i \<and>
          status b = build_result h)) \<and>
   (\<forall>h\<in>set hs. \<exists>j b.
       map_of (fold found_build hs ([] :: (string \<times> 'f job) list)) (job_name h) = Some j \<and>
       map_of (builds j) (py_str (build_num h)) = Some b)"
proof -
  have a: "\<forall>jn j. map_of ([] :: (string \<times> 'f job) list) jn = Some j \<longrightarrow> builds j \<noteq> []"
    by simp
  have b: "\<forall>jn j i b. map_of ([] :: (string \<times> 'f job) list) jn = Some j \<and>
      map_of (builds j) i = Some b \<longrightarrow>
      (\<exists>h\<in>set ([] :: elk_build list). job_name h = jn \<and> py_str (build_num h) = i \<and>
         status b = build_result h)"
    by simp
  have c: "\<forall>h\<in>set ([] :: elk_build list). \<exists>j b.
      map_of ([] :: (string \<times> 'f job) list) (job_name h) = Some j \<and>
      map_of (builds j) (py_str (build_num h)) = Some b"
    by simp
  from fold_found_build[OF a b c, of hs] show ?thesis by (simp only: append_Nil)
qed

lemma distinct_fold_found_build:
  "distinct (map fst J) \<Longrightarrow> distinct (map fst (fold found_build hs J))"
  by (induction hs arbitrary: J) (simp_all add: distinct_found_build)

lemma get_build_filters_nonempty:
  "kw_build_status kw = Some v \<Longrightarrow> v \<noteq> [] \<Longrightarrow> get_build_filters kw \<noteq> []"
  by (simp add: get_build_filters_def)

lemma get_builds_found:
  fixes L :: "('p, 'f) lib"
  assumes "kw_build_status kw = Some v" and "v \<noteq> []" and "kw_last_build kw = None"
    and "filter_jobs L kw hits = Inr hits1"
  shows "get_builds L kw (Some hits) =
           Inr (fold found_build (filter_builds hits1 (get_build_filters kw))
                  ([] :: (string \<times> 'f job) list))"
proof -
  let ?J = "fold found_build (filter_builds hits1 (get_build_filters kw))
      ([] :: (string \<times> 'f job) list)"
  have d: "distinct (map fst ?J)" by (rule distinct_fold_found_build) simp
  have "\<forall>jn j. map_of ?J jn = Some j \<longrightarrow> builds j \<noteq> []"
    using found_builds by blast
  with d have "\<forall>(jn, j)\<in>set ?J. has_builds_job j"
    by (auto simp: has_builds_job_def dest: map_of_is_SomeI)
  then have "filter (\<lambda>(jn, j). has_builds_job j) ?J = ?J"
    by (simp add: filter_id_conv)
  with assms show ?thesis
    by (simp add: get_builds_def Let_def)
qed

text \<open>
  C6. When statuses are asked for with \<open>build_status\<close> (and \<open>last_build\<close> is not), the
  builds \<open>get_builds\<close> returns are the builds that pass the filters: every build of a job
  returned has the job, the number and the result of a build that passed, a result that
  is one of the statuses asked for, and every build that passed is in its job. No job
  is returned without a build, and a job none of whose builds passed is not returned.
  For the builds 1 with \<open>SUCCESS\<close> and 2 with \<open>FAIL\<close>, and the status \<open>FAIL\<close> asked for,
  only the build 2 is returned, be the builds of one job or of two.
\<close>

theorem get_builds_by_status:
  fixes L :: "('p, 'f) lib"
  shows
  "(kw_build_status kw = Some v \<and> v \<noteq> [] \<and> kw_last_build kw = None \<and>
    filter_jobs L kw hits = Inr hits1 \<longrightarrow>
      (\<exists>res. get_builds L kw (Some hits) = Inr res \<and> distinct (map fst res) \<and>
         (\<forall>jn j i b. map_of res jn = Some j \<and> map_of (builds j) i = Some b \<longrightarrow>
            satisfy_case_insensitive_match v (status b) \<and>
            (\<exists>h\<in>set (filter (\<lambda>h. satisfy_case_insensitive_match v (build_result h))
                        (filter_builds hits1 (get_build_filters (kw\<lparr>kw_build_status := None\<rparr>)))).
               job_name h = jn \<and> py_str (build_num h) = i \<and> status b = build_result h)) \<and>
         (\<forall>h\<in>set (filter (\<lambda>h. satisfy_case_insensitive_match v (build_result h))
                     (filter_builds hits1 (get_build_filters (kw\<lparr>kw_build_status := None\<rparr>)))).
            \<exists>j b. map_of res (job_name h) = Some j \<and>
                  map_of (builds j) (py_str (build_num h)) = Some b) \<and>
         (\<forall>(jn, j)\<in>set res. builds j \<noteq> []) \<and>
         (\<forall>jn. (\<forall>h\<in>set (filter (\<lambda>h. satisfy_case_insensitive_match v (build_result h))
                     (filter_builds hits1 (get_build_filters (kw\<lparr>kw_build_status := None\<rparr>)))).
                  job_name h \<noteq> jn) \<longrightarrow> map_of res jn = None))) \<and>
   get_builds example_lib (no_kwargs\<lparr>kw_build_status := Some [''FAIL'']\<rparr>) (Some build_hits) =
     Inr [(''test2'', \<lparr>name = ''test2'', url = Some ''http://domain.tld/test2/'',
                       builds = [(''2'', \<lparr>build_id = ''2'', status = Some ''FAIL'',
                                           duration = Some (10 :: int), tests = []\<rparr>)]\<rparr>)] \<and>
   get_builds example_lib (no_kwargs\<lparr>kw_build_status := Some [''FAIL'']\<rparr>) (Some one_job_hits) =
     Inr [(''test'', \<lparr>name = ''test'', url = Some ''http://domain.tld/test/'',
                      builds = [(''2'', \<lparr>build_id = ''2'', status = Some ''FAIL'',
                                          duration = (None :: int option), tests = []\<rparr>)]\<rparr>)]"
proof -
  have gen: "\<exists>res. get_builds L kw (Some hits) = Inr res \<and> distinct (map fst res) \<and>
         (\<forall>jn j i b. map_of res jn = Some j \<and> map_of (builds j) i = Some b \<longrightarrow>
            satisfy_case_insensitive_match v (status b) \<and>
            (\<exists>h\<in>set (filter (\<lambda>h. satisfy_case_insensitive_match v (build_result h))
                        (filter_builds hits1 (get_build_filters (kw\<lparr>kw_build_status := None\<rparr>)))).
               job_name h = jn \<and> py_str (build_num h) = i \<and> status b = build_result h)) \<and>
         (\<forall>h\<in>set (filter (\<lambda>h. satisfy_case_insensitive_match v (build_result h))
                     (filter_builds hits1 (get_build_filters (kw\<lparr>kw_build_status := None\<rparr>)))).
            \<exists>j b. map_of res (job_name h) = Some j \<and>
                  map_of (builds j) (py_str (build_num h)) = Some b) \<and>
         (\<forall>(jn, j)\<in>set res. builds j \<noteq> []) \<and>
         (\<forall>jn. (\<forall>h\<in>set (filter (\<lambda>h. satisfy_case_insensitive_match v (build_result h))
                     (filter_builds hits1 (get_build_filters (kw\<lparr>kw_build_status := None\<rparr>)))).
                  job_name h \<noteq> jn) \<longrightarrow> map_of res jn = None)"
    if a: "kw_build_status kw = Some v" "v \<noteq> []" "kw_last_build kw = None"
      "filter_jobs L kw hits = Inr hits1"
  proof -
    let ?kept = "filter (\<lambda>h. satisfy_case_insensitive_match v (build_result h))
        (filter_builds hits1 (get_build_filters (kw\<lparr>kw_build_status := None\<rparr>)))"
    let ?J = "fold found_build ?kept ([] :: (string \<times> 'f job) list)"
    have kept: "filter_builds hits1 (get_build_filters kw) = ?kept"
      using filter_builds_status[OF a(1,2)]
      by (simp add: satisfy_case_insensitive_match_iff)
    have r: "get_builds L kw (Some hits) = Inr ?J"
      using get_builds_found[OF a] kept by simp
    have d: "distinct (map fst ?J)" by (rule distinct_fold_found_build) simp
    from found_builds[of ?kept] have
      inv: "\<forall>jn j. map_of ?J jn = Some j \<longrightarrow> builds j \<noteq> []"
        "\<forall>jn j i b. map_of ?J jn = Some j \<and> map_of (builds j) i = Some b \<longrightarrow>
           (\<exists>h\<in>set ?kept. job_name h = jn \<and> py_str (build_num h) = i \<and>
              status b = build_result h)"
        "\<forall>h\<in>set ?kept. \<exists>j b. map_of ?J (job_name h) = Some j \<and>
           map_of (builds j) (py_str (build_num h)) = Some b"
      by blast+
    have c1: "\<forall>jn j i b. map_of ?J jn = Some j \<and> map_of (builds j) i = Some b \<longrightarrow>
            satisfy_case_insensitive_match v (status b) \<and>
            (\<exists>h\<in>set ?kept. job_name h = jn \<and> py_str (build_num h) = i \<and>
               status b = build_result h)"
    proof (intro allI impI)
      fix jn j i b
      assume "map_of ?J jn = Some j \<and> map_of (builds j) i = Some b"
      with inv(2) obtain h where
        h: "h \<in> set ?kept" "job_name h = jn" "py_str (build_num h) = i"
           "status b = build_result h" by blast
      from h(1) have "satisfy_case_insensitive_match v (build_result h)" by simp
      with h show "satisfy_case_insensitive_match v (status b) \<and>
            (\<exists>h\<in>set ?kept. job_name h = jn \<and> py_str (build_num h) = i \<and>
               status b = build_result h)" by auto
    qed
    have c3: "\<forall>(jn, j)\<in>set ?J. builds j \<noteq> []"
      using inv(1) d by (auto dest: map_of_is_SomeI)
    have c4: "\<forall>jn. (\<forall>h\<in>set ?kept. job_name h \<noteq> jn) \<longrightarrow> map_of ?J jn = None"
    proof (intro allI impI)
      fix jn assume no: "\<forall>h\<in>set ?kept. job_name h \<noteq> jn"
      show "map_of ?J jn = None"
      proof (rule ccontr)
        assume "map_of ?J jn \<noteq> None"
        then obtain j where j: "map_of ?J jn = Some j" by auto
        with inv(1) obtain i b rest where "builds j = (i, b) # rest"
          by (cases "builds j") auto
        then have "map_of (builds j) i = Some b" by simp
        with inv(2) j obtain h where "h \<in> set ?kept" "job_name h = jn" by blast
        with no show False by blast
      qed
    qed
    from r d c1 inv(3) c3 c4 show ?thesis by blast
  qed
  have ex1: "get_builds example_lib (no_kwargs\<lparr>kw_build_status := Some [''FAIL'']\<rparr>) (Some build_hits) =
     Inr [(''test2'', \<lparr>name = ''test2'', url = Some ''http://domain.tld/test2/'',
                       builds = [(''2'', \<lparr>build_id = ''2'', status = Some ''FAIL'',
                                           duration = Some (10 :: int), tests = []\<rparr>)]\<rparr>)]"
    by code_simp
  have ex2: "get_builds example_lib (no_kwargs\<lparr>kw_build_status := Some [''FAIL'']\<rparr>) (Some one_job_hits) =
     Inr [(''test'', \<lparr>name = ''test'', url = Some ''http://domain.tld/test/'',
                      builds = [(''2'', \<lparr>build_id = ''2'', status = Some ''FAIL'',
                                          duration = (None :: int option), tests = []\<rparr>)]\<rparr>)]"
    by code_simp
  from gen ex1 ex2 show ?thesis by blast
qed

theorem get_builds_by_status_witness:
  "kw_build_status (no_kwargs\<lparr>kw_build_status := Some [''FAIL'']\<rparr>) = Some [''FAIL''] \<and>
   [''FAIL''] \<noteq> ([] :: string list) \<and>
   kw_last_build (no_kwargs\<lparr>kw_build_status := Some [''FAIL'']\<rparr>) = None \<and>
   filter_jobs example_lib (no_kwargs\<lparr>kw_build_status := Some [''FAIL'']\<rparr>) one_job_hits =
     Inr one_job_hits \<and>
   map job_name (filter (\<lambda>h. satisfy_case_insensitive_match [''FAIL''] (build_result h))
      (filter_builds one_job_hits
         (get_build_filters (no_kwargs\<lparr>kw_build_status := Some [''FAIL''],
            kw_build_status := None\<rparr>)))) = [''test''] \<and>
   (\<exists>res. get_builds example_lib (no_kwargs\<lparr>kw_build_status := Some [''FAIL'']\<rparr>)
             (Some one_job_hits) = Inr (res :: (string \<times> int job) list) \<and>
          map_of res ''other'' = None)"
proof -
  have h: "kw_build_status (no_kwargs\<lparr>kw_build_status := Some [''FAIL'']\<rparr>) = Some [''FAIL'']"
      "[''FAIL''] \<noteq> ([] :: string list)"
      "kw_last_build (no_kwargs\<lparr>kw_build_status := Some [''FAIL'']\<rparr>) = None"
    by (simp_all add: no_kwargs_def)
  have f: "filter_jobs example_lib (no_kwargs\<lparr>kw_build_status := Some [''FAIL'']\<rparr>) one_job_hits =
     Inr one_job_hits"
    by (simp add: filter_jobs_no_filter no_kwargs_def)
  have k: "map job_name (filter (\<lambda>h. satisfy_case_insensitive_match [''FAIL''] (build_result h))
      (filter_builds one_job_hits
         (get_build_filters (no_kwargs\<lparr>kw_build_status := Some [''FAIL''],
            kw_build_status := None\<rparr>)))) = [''test'']"
    by code_simp
  have no: "\<forall>h\<in>set (filter (\<lambda>h. satisfy_case_insensitive_match [''FAIL''] (build_result h))
      (filter_builds one_job_hits
         (get_build_filters (no_kwargs\<lparr>kw_build_status := Some [''FAIL''],
            kw_build_status := None\<rparr>)))). job_name h \<noteq> ''other''"
    by code_simp
  from get_builds_by_status[of "no_kwargs\<lparr>kw_build_status := Some [''FAIL'']\<rparr>" "[''FAIL'']"
      example_lib one_job_hits one_job_hits] h f no
  have "\<exists>res. get_builds example_lib (no_kwargs\<lparr>kw_build_status := Some [''FAIL'']\<rparr>)
             (Some one_job_hits) = Inr (res :: (string \<times> int job) list) \<and>
          map_of res ''other'' = None"
    by blast
  with h f k show ?thesis by blast
qed

section \<open>Tests without builds\<close>


















section \<open>Merging\<close>

subsection \<open>Merging twice\<close>

lemma map_of_upsert_other: "k' \<noteq> k \<Longrightarrow> map_of (upsert m k v d) k' = map_of d k'"
  by (simp add: map_of_upsert)

lemma fold_upsert_other:
  "k \<notin> key ` set vs \<Longrightarrow> map_of (fold (\<lambda>v. upsert m (key v) v) vs d) k = map_of d k"
  by (induction vs arbitrary: d) (auto simp: map_of_upsert_other)

lemma upsert_absorbed:
  "map_of d k = Some x \<Longrightarrow> m x v = x \<Longrightarrow> upsert m k v d = d"
  by (simp add: upsert_def update_triv)

lemma fold_upsert_absorbed:
  "\<forall>v\<in>set vs. \<exists>x. map_of d (key v) = Some x \<and> m x v = x \<Longrightarrow>
   fold (\<lambda>v. upsert m (key v) v) vs d = d"
  by (induction vs) (auto simp: upsert_absorbed)

lemma fold_upsert_absorbs:
  assumes "distinct (map key vs)"
    and "\<forall>v\<in>set vs. m v v = v"
    and "\<forall>v\<in>set vs. \<forall>x. m (m x v) v = m x v"
  shows "\<forall>v\<in>set vs. \<exists>x. map_of (fold (\<lambda>v. upsert m (key v) v) vs d) (key v) = Some x \<and>
           m x v = x"
  using assms
proof (induction vs arbitrary: d)
  case Nil
  then show ?case by simp
next
  case (Cons a vs)
  let ?d = "upsert m (key a) a d"
  have notin: "key a \<notin> key ` set vs" using Cons.prems(1) by auto
  have "map_of (fold (\<lambda>v. upsert m (key v) v) vs ?d) (key a) = map_of ?d (key a)"
    using notin by (rule fold_upsert_other)
  moreover have "\<exists>x. map_of ?d (key a) = Some x \<and> m x a = x"
    using Cons.prems(2,3) by (cases "map_of d (key a)") (auto simp: map_of_upsert)
  ultimately have hd: "\<exists>x. map_of (fold (\<lambda>v. upsert m (key v) v) vs ?d) (key a) = Some x \<and>
      m x a = x" by simp
  have tl: "\<forall>v\<in>set vs. \<exists>x. map_of (fold (\<lambda>v. upsert m (key v) v) vs ?d) (key v) = Some x \<and>
           m x v = x"
    using Cons.IH[of ?d] Cons.prems by auto
  from hd tl show ?case by simp
qed

lemma fold_upsert_twice:
  assumes "distinct (map key vs)"
    and "\<forall>v\<in>set vs. m v v = v"
    and "\<forall>v\<in>set vs. \<forall>x. m (m x v) v = m x v"
  shows "fold (\<lambda>v. upsert m (key v) v) vs (fold (\<lambda>v. upsert m (key v) v) vs d) =
         fold (\<lambda>v. upsert m (key v) v) vs d"
  using fold_upsert_absorbs[OF assms] by (rule fold_upsert_absorbed)

lemma fold_upsert_self:
  assumes "distinct (map fst d)" and "\<forall>(k, v)\<in>set d. k = key v" and "\<forall>(k, v)\<in>set d. m v v = v"
  shows "fold (\<lambda>v. upsert m (key v) v) (map snd d) d = d"
proof (rule fold_upsert_absorbed)
  show "\<forall>v\<in>set (map snd d). \<exists>x. map_of d (key v) = Some x \<and> m x v = x"
  proof
    fix v assume "v \<in> set (map snd d)"
    then obtain k where kv: "(k, v) \<in> set d" by auto
    with assms(2) have "k = key v" by auto
    with kv assms(1) have "map_of d (key v) = Some v" by simp
    moreover from kv assms(3) have "m v v = v" by auto
    ultimately show "\<exists>x. map_of d (key v) = Some x \<and> m x v = x" by simp
  qed
qed

lemma merge_field_twice [simp]: "merge_field (merge_field a b) b = merge_field a b"
  by (simp add: merge_field_def split: option.splits)

lemma merge_field_self [simp]: "merge_field a a = a"
  by (simp add: merge_field_def split: option.splits)

lemma merge_test_twice: "merge_test (merge_test x t) t = merge_test x t"
  by (simp add: merge_test_def)

lemma merge_test_self: "merge_test t t = t"
  by (simp add: merge_test_def)

lemma fold_add_test:
  "fold add_test ts b = b\<lparr>tests := fold (\<lambda>t. upsert merge_test (test_name t) t) ts (tests b)\<rparr>"
  by (induction ts arbitrary: b) (simp_all add: add_test_def)

lemma merge_build_eq:
  "merge_build old new =
     old\<lparr>status := merge_field (status old) (status new),
         duration := merge_field (duration old) (duration new),
         tests := fold (\<lambda>t. upsert merge_test (test_name t) t) (map snd (tests new)) (tests old)\<rparr>"
  by (simp add: merge_build_def fold_add_test)

lemma wf_build_keys:
  "wf_build b \<Longrightarrow> distinct (map test_name (map snd (tests b)))"
proof -
  assume w: "wf_build b"
  then have "map fst (tests b) = map test_name (map snd (tests b))"
    by (auto simp: wf_build_def list_all_iff)
  with w show ?thesis by (simp add: wf_build_def)
qed

lemma merge_build_twice:
  assumes "wf_build b"
  shows "merge_build (merge_build x b) b = merge_build x b"
proof -
  have "fold (\<lambda>t. upsert merge_test (test_name t) t) (map snd (tests b))
          (fold (\<lambda>t. upsert merge_test (test_name t) t) (map snd (tests b)) (tests x)) =
        fold (\<lambda>t. upsert merge_test (test_name t) t) (map snd (tests b)) (tests x)"
    by (rule fold_upsert_twice[OF wf_build_keys[OF assms]])
      (simp_all add: merge_test_self merge_test_twice)
  then show ?thesis by (simp add: merge_build_eq)
qed

lemma merge_build_self:
  assumes "wf_build b"
  shows "merge_build b b = b"
proof -
  have "fold (\<lambda>t. upsert merge_test (test_name t) t) (map snd (tests b)) (tests b) = tests b"
    using assms
    by (intro fold_upsert_self) (auto simp: wf_build_def list_all_iff merge_test_self)
  then show ?thesis by (simp add: merge_build_eq)
qed

lemma fold_add_build:
  "fold add_build bs j =
     j\<lparr>builds := fold (\<lambda>b. upsert merge_build (build_id b) b) bs (builds j)\<rparr>"
  by (induction bs arbitrary: j) (simp_all add: add_build_def)

lemma merge_job_eq:
  "merge_job old new =
     old\<lparr>url := merge_field (url old) (url new),
         builds := fold (\<lambda>b. upsert merge_build (build_id b) b) (map snd (builds new))
                     (builds old)\<rparr>"
  by (simp add: merge_job_def fold_add_build)

lemma wf_job_keys: "wf_job j \<Longrightarrow> distinct (map build_id (map snd (builds j)))"
proof -
  assume w: "wf_job j"
  then have "map fst (builds j) = map build_id (map snd (builds j))"
    by (auto simp: wf_job_def list_all_iff)
  with w show ?thesis by (simp add: wf_job_def)
qed

lemma wf_job_builds: "wf_job j \<Longrightarrow> b \<in> set (map snd (builds j)) \<Longrightarrow> wf_build b"
  by (auto simp: wf_job_def list_all_iff)

lemma merge_job_twice:
  assumes "wf_job j"
  shows "merge_job (merge_job x j) j = merge_job x j"
proof -
  have "fold (\<lambda>b. upsert merge_build (build_id b) b) (map snd (builds j))
          (fold (\<lambda>b. upsert merge_build (build_id b) b) (map snd (builds j)) (builds x)) =
        fold (\<lambda>b. upsert merge_build (build_id b) b) (map snd (builds j)) (builds x)"
    using wf_job_builds[OF assms]
    by (intro fold_upsert_twice[OF wf_job_keys[OF assms]])
      (simp_all add: merge_build_self merge_build_twice)
  then show ?thesis by (simp add: merge_job_eq)
qed

lemma merge_job_self:
  assumes "wf_job j"
  shows "merge_job j j = j"
proof -
  have "fold (\<lambda>b. upsert merge_build (build_id b) b) (map snd (builds j)) (builds j) = builds j"
    using assms
    by (intro fold_upsert_self) (auto simp: wf_job_def list_all_iff merge_build_self)
  then show ?thesis by (simp add: merge_job_eq)
qed

lemma fold_add_job:
  "fold add_job js system =
     system\<lparr>jobs := fold (\<lambda>j. upsert merge_job (name j) j) js (jobs system)\<rparr>"
  by (induction js arbitrary: system) (simp_all add: add_job_def)

lemma add_job_twice:
  assumes "wf_job j"
  shows "add_job j (add_job j system) = add_job j system"
proof -
  have "fold (\<lambda>j. upsert merge_job (name j) j) [j]
          (fold (\<lambda>j. upsert merge_job (name j) j) [j] (jobs system)) =
        fold (\<lambda>j. upsert merge_job (name j) j) [j] (jobs system)"
    using assms
    by (intro fold_upsert_twice) (simp_all add: merge_job_self merge_job_twice)
  then show ?thesis by (simp add: add_job_def)
qed

lemma add_jobs_twice:
  assumes "wf_jobs js"
  shows "add_jobs js (add_jobs js system) = add_jobs js system"
proof -
  from assms have "map fst js = map name (map snd js)"
    by (auto simp: wf_jobs_def list_all_iff)
  with assms have d: "distinct (map name (map snd js))" by (simp add: wf_jobs_def)
  from assms have w: "\<forall>j\<in>set (map snd js). wf_job j"
    by (auto simp: wf_jobs_def list_all_iff)
  have "fold (\<lambda>j. upsert merge_job (name j) j) (map snd js)
          (fold (\<lambda>j. upsert merge_job (name j) j) (map snd js) (jobs system)) =
        fold (\<lambda>j. upsert merge_job (name j) j) (map snd js) (jobs system)"
    using w by (intro fold_upsert_twice[OF d]) (simp_all add: merge_job_self merge_job_twice)
  then show ?thesis by (simp add: add_jobs_def fold_add_job)
qed

subsection \<open>What is populated stays populated\<close>

lemma dict_le_iff:
  "dict_le le d d' \<longleftrightarrow>
     (\<forall>k v. map_of d k = Some v \<longrightarrow> (\<exists>v'. map_of d' k = Some v' \<and> le v v'))"
proof
  assume a: "dict_le le d d'"
  show "\<forall>k v. map_of d k = Some v \<longrightarrow> (\<exists>v'. map_of d' k = Some v' \<and> le v v')"
  proof (intro allI impI)
    fix k v assume m: "map_of d k = Some v"
    then have "(k, v) \<in> set d" by (rule map_of_SomeD)
    then have "k \<in> set (map fst d)" by force
    with a have "case map_of d k of
              None \<Rightarrow> True
            | Some v \<Rightarrow> (case map_of d' k of None \<Rightarrow> False | Some v' \<Rightarrow> le v v')"
      unfolding dict_le_def list_all_iff by blast
    with m show "\<exists>v'. map_of d' k = Some v' \<and> le v v'"
      by (simp split: option.splits)
  qed
next
  assume b: "\<forall>k v. map_of d k = Some v \<longrightarrow> (\<exists>v'. map_of d' k = Some v' \<and> le v v')"
  have "case map_of d k of
              None \<Rightarrow> True
            | Some v \<Rightarrow> (case map_of d' k of None \<Rightarrow> False | Some v' \<Rightarrow> le v v')" for k
  proof (cases "map_of d k")
    case None
    then show ?thesis by simp
  next
    case (Some v)
    with b obtain v' where "map_of d' k = Some v'" "le v v'" by blast
    with Some show ?thesis by simp
  qed
  then show "dict_le le d d'"
    by (simp add: dict_le_def list_all_iff)
qed

lemma dict_le_refl: "(\<And>v. le v v) \<Longrightarrow> dict_le le d d"
  by (simp add: dict_le_iff)

lemma dict_le_trans:
  assumes "dict_le le d1 d2" and "dict_le le d2 d3"
    and "\<And>a b c. le a b \<Longrightarrow> le b c \<Longrightarrow> le a c"
  shows "dict_le le d1 d3"
  using assms(1,2) unfolding dict_le_iff by (meson assms(3))

lemma dict_le_upsert:
  assumes "\<And>v. le v v" and "\<And>old. le old (m old v)"
  shows "dict_le le d (upsert m k v d)"
  unfolding dict_le_iff using assms by (auto simp: map_of_upsert)

lemma dict_le_fold_upsert:
  assumes "\<And>v. le v v" and "\<And>a b c. le a b \<Longrightarrow> le b c \<Longrightarrow> le a c"
    and "\<And>old v. le old (m old v)"
  shows "dict_le le d (fold (\<lambda>v. upsert m (key v) v) vs d)"
proof (induction vs arbitrary: d)
  case Nil
  show ?case using assms(1) by (simp add: dict_le_refl)
next
  case (Cons a vs)
  have "dict_le le d (upsert m (key a) a d)"
    unfolding dict_le_iff using assms(1,3) by (auto simp: map_of_upsert)
  moreover have "dict_le le (upsert m (key a) a d)
      (fold (\<lambda>v. upsert m (key v) v) vs (upsert m (key a) a d))"
    by (rule Cons.IH)
  ultimately have "dict_le le d (fold (\<lambda>v. upsert m (key v) v) vs (upsert m (key a) a d))"
    using assms(2) by (rule dict_le_trans[where le = le])
  then show ?case by simp
qed

lemma set_le_refl: "set_le a a"
  by (simp add: set_le_def)

lemma set_le_trans: "set_le a b \<Longrightarrow> set_le b c \<Longrightarrow> set_le a c"
  by (simp add: set_le_def)

lemma set_le_merge_field: "set_le a (merge_field a b)"
  by (simp add: set_le_def merge_field_def split: option.splits)

lemma test_le_refl: "test_le t t"
  by (simp add: test_le_def set_le_refl)

lemma test_le_trans: "test_le a b \<Longrightarrow> test_le b c \<Longrightarrow> test_le a c"
  unfolding test_le_def by (blast intro: set_le_trans)

lemma test_le_merge: "test_le old (merge_test old new)"
  by (simp add: test_le_def merge_test_def set_le_merge_field)

lemma build_le_refl: "build_le b b"
  by (simp add: build_le_def set_le_refl dict_le_refl test_le_refl)

lemma build_le_trans: "build_le a b \<Longrightarrow> build_le b c \<Longrightarrow> build_le a c"
  unfolding build_le_def
  by (blast intro: set_le_trans dict_le_trans[where le = test_le] test_le_trans)

lemma build_le_merge: "build_le old (merge_build old new)"
  unfolding build_le_def merge_build_eq
  using dict_le_fold_upsert[of test_le merge_test "tests old" test_name "map snd (tests new)",
      OF test_le_refl test_le_trans test_le_merge]
  by (simp add: set_le_merge_field)

lemma job_le_refl: "job_le j j"
  by (simp add: job_le_def set_le_refl dict_le_refl build_le_refl)

lemma job_le_trans: "job_le a b \<Longrightarrow> job_le b c \<Longrightarrow> job_le a c"
  unfolding job_le_def
  by (blast intro: set_le_trans dict_le_trans[where le = build_le] build_le_trans)

lemma job_le_merge: "job_le old (merge_job old new)"
  unfolding job_le_def merge_job_eq
  using dict_le_fold_upsert[of build_le merge_build "builds old" build_id "map snd (builds new)",
      OF build_le_refl build_le_trans build_le_merge]
  by (simp add: set_le_merge_field)

lemma populated_le_refl: "populated_le s s"
  by (simp add: populated_le_def dict_le_refl job_le_refl)

lemma populated_le_trans: "populated_le a b \<Longrightarrow> populated_le b c \<Longrightarrow> populated_le a c"
  unfolding populated_le_def
  by (blast intro: dict_le_trans[where le = job_le] job_le_trans)

lemma populated_le_add_job: "populated_le s (add_job j s)"
  unfolding populated_le_def add_job_def
  using dict_le_upsert[of job_le merge_job j "jobs s" "name j", OF job_le_refl job_le_merge]
  by simp

lemma populated_le_add_jobs: "populated_le s (add_jobs js s)"
  unfolding populated_le_def add_jobs_def fold_add_job
  using dict_le_fold_upsert[of job_le merge_job "jobs s" name "map snd js",
      OF job_le_refl job_le_trans job_le_merge]
  by simp

lemma populate_Cons:
  "populate system_methods s ((k, v) # rest) =
     (if k = ''jobs'' then populate system_methods (add_jobs v s) rest
      else populate system_methods s rest)"
  by (simp add: system_methods_def)

lemma populated_le_populate: "populated_le s (populate system_methods s model_instances)"
proof (induction model_instances arbitrary: s)
  case Nil
  show ?case by (simp add: populated_le_refl)
next
  case (Cons p rest)
  obtain k v where p: "p = (k, v)" by (cases p)
  show ?case
  proof (cases "k = ''jobs''")
    case False
    with Cons.IH[of s] show ?thesis unfolding p populate_Cons by simp
  next
    case True
    have "populated_le s (add_jobs v s)" by (rule populated_le_add_jobs)
    moreover have "populated_le (add_jobs v s) (populate system_methods (add_jobs v s) rest)"
      by (rule Cons.IH)
    ultimately have "populated_le s (populate system_methods (add_jobs v s) rest)"
      by (rule populated_le_trans)
    with True show ?thesis unfolding p populate_Cons by simp
  qed
qed

lemma populated_le_merges:
  "populated_le s (fold (\<lambda>model_instances s. populate system_methods s model_instances) merges s)"
proof (induction merges arbitrary: s)
  case Nil
  show ?case by (simp add: populated_le_refl)
next
  case (Cons mi merges)
  have "populated_le s (populate system_methods s mi)" by (rule populated_le_populate)
  moreover have "populated_le (populate system_methods s mi)
      (fold (\<lambda>model_instances s. populate system_methods s model_instances) merges
         (populate system_methods s mi))"
    by (rule Cons.IH)
  ultimately have "populated_le s
      (fold (\<lambda>model_instances s. populate system_methods s model_instances) merges
         (populate system_methods s mi))"
    by (rule populated_le_trans)
  then show ?case by simp
qed

lemma add_job_keeps_url:
  assumes "map_of (jobs system) (name j) = Some old" and "url j = None"
  shows "\<exists>j'. map_of (jobs (add_job j system)) (name j) = Some j' \<and> url j' = url old"
  using assms by (simp add: add_job_def map_of_upsert merge_job_eq merge_field_def)

lemma populate_jobs: "populate system_methods system [(''jobs'', js)] = add_jobs js system"
  by (simp add: system_methods_def)

text \<open>
  C9. Merging a job into a system a second time changes nothing, and so does populating a
  system a second time with the jobs a source has returned (the dictionaries being well
  formed). After any sequence of merges, what was populated in the system is populated:
  its jobs, their builds and the tests of these are there, and every field that was set
  is set. A job, a build or a test merged later with a field absent leaves the value the
  field had.
\<close>

theorem merge_idempotent_monotone:
  "(wf_job j \<longrightarrow> add_job j (add_job j system) = add_job j system) \<and>
   (wf_jobs js \<longrightarrow>
      populate system_methods (populate system_methods system [(''jobs'', js)]) [(''jobs'', js)] =
      populate system_methods system [(''jobs'', js)]) \<and>
   populated_le system
     (fold (\<lambda>model_instances s. populate system_methods s model_instances) merges system) \<and>
   (map_of (jobs system) (name j) = Some old \<and> url j = None \<longrightarrow>
      (\<exists>j'. map_of (jobs (add_job j system)) (name j) = Some j' \<and> url j' = url old)) \<and>
   (url new_job = None \<longrightarrow> url (merge_job old_job new_job) = url old_job) \<and>
   (status new_build = None \<longrightarrow> status (merge_build old_build new_build) = status old_build) \<and>
   (duration new_build = None \<longrightarrow>
      duration (merge_build old_build new_build) = duration old_build) \<and>
   (test_result new_test = None \<longrightarrow>
      test_result (merge_test old_test new_test) = test_result old_test)"
proof -
  have a: "wf_job j \<longrightarrow> add_job j (add_job j system) = add_job j system"
    using add_job_twice by blast
  have b: "wf_jobs js \<longrightarrow>
      populate system_methods (populate system_methods system [(''jobs'', js)]) [(''jobs'', js)] =
      populate system_methods system [(''jobs'', js)]"
    unfolding populate_jobs using add_jobs_twice by blast
  have c: "populated_le system
     (fold (\<lambda>model_instances s. populate system_methods s model_instances) merges system)"
    by (rule populated_le_merges)
  have d: "map_of (jobs system) (name j) = Some old \<and> url j = None \<longrightarrow>
      (\<exists>j'. map_of (jobs (add_job j system)) (name j) = Some j' \<and> url j' = url old)"
    using add_job_keeps_url by blast
  have e: "url new_job = None \<longrightarrow> url (merge_job old_job new_job) = url old_job"
    by (simp add: merge_job_eq merge_field_def)
  have f: "status new_build = None \<longrightarrow>
      status (merge_build old_build new_build) = status old_build"
    by (simp add: merge_build_eq merge_field_def)
  have g: "duration new_build = None \<longrightarrow>
      duration (merge_build old_build new_build) = duration old_build"
    by (simp add: merge_build_eq merge_field_def)
  have h: "test_result new_test = None \<longrightarrow>
      test_result (merge_test old_test new_test) = test_result old_test"
    by (simp add: merge_test_def merge_field_def)
  from a b c d e f g h show ?thesis by blast
qed

theorem merge_idempotent_monotone_witness:
  "wf_job job1_tests \<and> wf_jobs [(''job1'', job1_tests)] \<and>
   add_job job1_tests (add_job job1_tests gateA_jobs) = add_job job1_tests gateA_jobs \<and>
   populate system_methods (populate system_methods gateA_jobs [(''jobs'', [(''job1'', job1_tests)])])
       [(''jobs'', [(''job1'', job1_tests)])] =
     populate system_methods gateA_jobs [(''jobs'', [(''job1'', job1_tests)])] \<and>
   populated_le gateA_jobs
     (fold (\<lambda>model_instances s. populate system_methods s model_instances)
        [[(''jobs'', [(''job1'', job1_tests)])], [(''jobs'', [(''job2'', Job ''job2'' None)])]]
        gateA_jobs) \<and>
   map_of (jobs gateA_jobs) (name job1_tests) = Some (Job ''job1'' (Some ''http://elastic/job1'')) \<and>
   url job1_tests = None \<and>
   (\<exists>j'. map_of (jobs (add_job job1_tests gateA_jobs)) (name job1_tests) = Some j' \<and>
      url j' = url (Job ''job1'' (Some ''http://elastic/job1'') :: int job)) \<and>
   jobs (add_job job1_tests gateA_jobs) =
     [(''job1'', \<lparr>name = ''job1'', url = Some ''http://elastic/job1'',
                   builds = [(''7'', Build ''7'' (Some ''SUCCESS'') None)]\<rparr>)] \<and>
   url (merge_job (Job ''job1'' (Some ''http://elastic/job1'')) job1_tests) =
     url (Job ''job1'' (Some ''http://elastic/job1'') :: int job) \<and>
   status (Build ''7'' None (Some 3) :: int build) = None \<and>
   status (merge_build (Build ''7'' (Some ''SUCCESS'') None :: int build)
             (Build ''7'' None (Some 3))) =
     status (Build ''7'' (Some ''SUCCESS'') None :: int build) \<and>
   duration (Build ''7'' (Some ''FAIL'') None :: int build) = None \<and>
   duration (merge_build (Build ''7'' None (Some 3) :: int build)
               (Build ''7'' (Some ''FAIL'') None)) =
     duration (Build ''7'' None (Some 3) :: int build) \<and>
   test_result \<lparr>test_name = ''t'', test_result = None, test_duration = Some (5 :: int),
                 class_name = None\<rparr> = None \<and>
   test_result (merge_test
      \<lparr>test_name = ''t'', test_result = Some ''SUCCESS'', test_duration = None, class_name = None\<rparr>
      \<lparr>test_name = ''t'', test_result = None, test_duration = Some (5 :: int),
        class_name = None\<rparr>) =
     test_result \<lparr>test_name = ''t'', test_result = Some ''SUCCESS'',
                   test_duration = (None :: int option), class_name = None\<rparr>"
proof -
  have h1: "wf_job job1_tests" by code_simp
  have h2: "wf_jobs [(''job1'', job1_tests)]" by code_simp
  have h3: "map_of (jobs gateA_jobs) (name job1_tests) =
      Some (Job ''job1'' (Some ''http://elastic/job1''))"
    by code_simp
  have h4: "url job1_tests = None" by code_simp
  have h5: "jobs (add_job job1_tests gateA_jobs) =
     [(''job1'', \<lparr>name = ''job1'', url = Some ''http://elastic/job1'',
                   builds = [(''7'', Build ''7'' (Some ''SUCCESS'') None)]\<rparr>)]"
    by code_simp
  have h6: "status (Build ''7'' None (Some 3) :: int build) = None"
    by (simp add: Build_def)
  have h7: "duration (Build ''7'' (Some ''FAIL'') None :: int build) = None"
    by (simp add: Build_def)
  have h8: "test_result \<lparr>test_name = ''t'', test_result = None, test_duration = Some (5 :: int),
                 class_name = None\<rparr> = None"
    by simp
  note t = merge_idempotent_monotone[of job1_tests gateA_jobs "[(''job1'', job1_tests)]"
      "[[(''jobs'', [(''job1'', job1_tests)])], [(''jobs'', [(''job2'', Job ''job2'' None)])]]"
      "Job ''job1'' (Some ''http://elastic/job1'')" job1_tests
      "Job ''job1'' (Some ''http://elastic/job1'') :: int job"
      "Build ''7'' None (Some 3) :: int build" "Build ''7'' (Some ''SUCCESS'') None :: int build"
      "\<lparr>test_name = ''t'', test_result = None, test_duration = Some (5 :: int),
        class_name = None\<rparr>"
      "\<lparr>test_name = ''t'', test_result = Some ''SUCCESS'', test_duration = None :: int option,
        class_name = None\<rparr>"]
  note t' = merge_idempotent_monotone[of job1_tests gateA_jobs "[(''job1'', job1_tests)]"
      "[]" "Job ''job1'' (Some ''http://elastic/job1'')" job1_tests
      "Job ''job1'' (Some ''http://elastic/job1'') :: int job"
      "Build ''7'' (Some ''FAIL'') None :: int build" "Build ''7'' None (Some 3) :: int build"
      "\<lparr>test_name = ''t'', test_result = None, test_duration = Some (5 :: int),
        class_name = None\<rparr>"
      "\<lparr>test_name = ''t'', test_result = Some ''SUCCESS'', test_duration = None :: int option,
        class_name = None\<rparr>"]
  from t' h7 have c: "duration (merge_build (Build ''7'' None (Some 3) :: int build)
      (Build ''7'' (Some ''FAIL'') None)) = duration (Build ''7'' None (Some 3) :: int build)"
    by blast
  from t h1 h2 h3 h4 h5 h6 h7 h8 c show ?thesis by blast
qed

end
